theory Spec2Isabelle
  imports Main "HOL-Library.Word" "HOL-Library.Sublist"
begin

unbundle bit_operations_syntax

text \<open>
  The PINE bridge \<open>woody\<close>: the request encoders and answer decoders of
  \<open>pine.go\<close>, the resolution of a target to a transport, the connection fallback, and
  the probe loop of \<open>main\<close>, embedded as functions on bytes, strings and records,
  followed by what holds of them.
\<close>

section \<open>Go values used by the PINE codec\<close>

type_synonym byte = "8 word"
type_synonym uint16 = "16 word"
type_synonym uint32 = "32 word"
type_synonym uint64 = "64 word"

text \<open>
  A Go call either panics (a failed run-time index or slice check), returns a non-nil
  \<open>error\<close> made by \<open>errors.New\<close> (the message is all such an error carries), or
  returns normally.
\<close>

datatype 'a outcome = Panic | Failed string | Done 'a

definition and_then :: "'a outcome \<Rightarrow> ('a \<Rightarrow> 'b outcome) \<Rightarrow> 'b outcome" where
  "and_then r f = (case r of Panic \<Rightarrow> Panic | Failed e \<Rightarrow> Failed e | Done x \<Rightarrow> f x)"

text \<open>
  A \<open>[]byte\<close> is a window on a backing array: \<open>elems\<close> are the \<open>len\<close> visible
  bytes, \<open>spare\<close> the bytes of the backing array between \<open>len\<close> and \<open>cap\<close>.
  An index expression is checked against \<open>len\<close>, the upper bound of a slice expression
  against \<open>cap\<close>.
\<close>

record go_slice =
  elems :: "byte list"
  spare :: "byte list"

definition slice_of :: "byte list \<Rightarrow> go_slice" where
  "slice_of bs = \<lparr>elems = bs, spare = []\<rparr>"

definition len :: "go_slice \<Rightarrow> nat" where
  "len s = length (elems s)"

definition cap :: "go_slice \<Rightarrow> nat" where
  "cap s = length (elems s) + length (spare s)"

text \<open>\<open>s[i]\<close>\<close>

definition index :: "go_slice \<Rightarrow> nat \<Rightarrow> byte outcome" where
  "index s i = (if i < len s then Done (elems s ! i) else Panic)"

text \<open>\<open>s[low:]\<close>: the upper bound defaults to \<open>len(s)\<close>.\<close>

definition slice_from :: "go_slice \<Rightarrow> nat \<Rightarrow> go_slice outcome" where
  "slice_from s low =
     (if low \<le> len s then Done \<lparr>elems = drop low (elems s), spare = spare s\<rparr> else Panic)"

text \<open>\<open>s[low:high]\<close>: needs \<open>low \<le> high \<le> cap(s)\<close>.\<close>

definition slice_from_to :: "go_slice \<Rightarrow> nat \<Rightarrow> nat \<Rightarrow> go_slice outcome" where
  "slice_from_to s low high =
     (if low \<le> high \<and> high \<le> cap s
      then Done \<lparr>elems = take (high - low) (drop low (elems s @ spare s)),
                 spare = drop high (elems s @ spare s)\<rparr>
      else Panic)"

text \<open>
  \<open>encoding/binary\<close>, \<open>LittleEndian\<close>: each reader starts with an index expression on
  the last byte it needs (\<open>_ = b[3]\<close> for \<open>Uint32\<close>), so a shorter slice panics.
\<close>

definition Uint16 :: "go_slice \<Rightarrow> uint16 outcome" where
  "Uint16 b =
     (if len b < 2 then Panic
      else Done (ucast (elems b ! 0) OR push_bit 8 (ucast (elems b ! 1))))"

definition Uint32 :: "go_slice \<Rightarrow> uint32 outcome" where
  "Uint32 b =
     (if len b < 4 then Panic
      else Done (ucast (elems b ! 0) OR push_bit 8 (ucast (elems b ! 1))
                 OR push_bit 16 (ucast (elems b ! 2)) OR push_bit 24 (ucast (elems b ! 3))))"

definition Uint64 :: "go_slice \<Rightarrow> uint64 outcome" where
  "Uint64 b =
     (if len b < 8 then Panic
      else Done (ucast (elems b ! 0) OR push_bit 8 (ucast (elems b ! 1))
                 OR push_bit 16 (ucast (elems b ! 2)) OR push_bit 24 (ucast (elems b ! 3))
                 OR push_bit 32 (ucast (elems b ! 4)) OR push_bit 40 (ucast (elems b ! 5))
                 OR push_bit 48 (ucast (elems b ! 6)) OR push_bit 56 (ucast (elems b ! 7))))"

text \<open>
  The writers of \<open>encoding/binary\<close> on a freshly made request buffer. The buffer of
  \<open>toBytes\<close> comes from \<open>make([]byte, n)\<close> (\<open>len = cap = n\<close>, all zero) and every
  write goes through a sub-slice \<open>bytes[off:]\<close> of it, so the buffer is a byte list and
  a write is an update at \<open>off\<close>.
\<close>

definition make_bytes :: "nat \<Rightarrow> byte list" where
  "make_bytes n = replicate n 0"

text \<open>\<open>bytes[i] = v\<close>\<close>

definition set_index :: "byte list \<Rightarrow> nat \<Rightarrow> byte \<Rightarrow> byte list outcome" where
  "set_index bytes i v = (if i < length bytes then Done (bytes[i := v]) else Panic)"

text \<open>\<open>binary.LittleEndian.PutUint16(bytes[off:], v)\<close>\<close>

definition PutUint16 :: "byte list \<Rightarrow> nat \<Rightarrow> uint16 \<Rightarrow> byte list outcome" where
  "PutUint16 bytes off v =
     (if off \<le> length bytes \<and> 2 \<le> length bytes - off
      then Done (bytes[off := ucast v, off + 1 := ucast (drop_bit 8 v)])
      else Panic)"

text \<open>\<open>binary.LittleEndian.PutUint32(bytes[off:], v)\<close>\<close>

definition PutUint32 :: "byte list \<Rightarrow> nat \<Rightarrow> uint32 \<Rightarrow> byte list outcome" where
  "PutUint32 bytes off v =
     (if off \<le> length bytes \<and> 4 \<le> length bytes - off
      then Done (bytes[off := ucast v, off + 1 := ucast (drop_bit 8 v),
                       off + 2 := ucast (drop_bit 16 v), off + 3 := ucast (drop_bit 24 v)])
      else Panic)"

text \<open>\<open>binary.LittleEndian.PutUint64(bytes[off:], v)\<close>\<close>

definition PutUint64 :: "byte list \<Rightarrow> nat \<Rightarrow> uint64 \<Rightarrow> byte list outcome" where
  "PutUint64 bytes off v =
     (if off \<le> length bytes \<and> 8 \<le> length bytes - off
      then Done (bytes[off := ucast v, off + 1 := ucast (drop_bit 8 v),
                       off + 2 := ucast (drop_bit 16 v), off + 3 := ucast (drop_bit 24 v),
                       off + 4 := ucast (drop_bit 32 v), off + 5 := ucast (drop_bit 40 v),
                       off + 6 := ucast (drop_bit 48 v), off + 7 := ucast (drop_bit 56 v)])
      else Panic)"

section \<open>Requests and their encoding (pine.go, toBytes)\<close>

record PineRead8Request =
  address :: uint32

record PineRead16Request =
  address :: uint32

record PineRead32Request =
  address :: uint32

record PineRead64Request =
  address :: uint32

record PineWrite8Request =
  address :: uint32
  data :: byte

record PineWrite16Request =
  address :: uint32
  data :: uint16

record PineWrite32Request =
  address :: uint32
  data :: uint32

record PineWrite64Request =
  address :: uint32
  data :: uint64

record PineSaveStateRequest =
  slot :: byte

record PineLoadStateRequest =
  slot :: byte

text \<open>
  The six requests without fields (\<open>struct{}\<close>) have one value each; they are the
  nullary constructors of \<open>PineRequest\<close> below.
\<close>

definition PineRead8Request_toBytes :: "PineRead8Request \<Rightarrow> byte list outcome" where
  "PineRead8Request_toBytes request =
     (let bytes = make_bytes 9 in
      and_then (PutUint32 bytes 0 (of_nat (length bytes))) (\<lambda>bytes.
      and_then (set_index bytes 4 0) (\<lambda>bytes.
      and_then (PutUint32 bytes 5 (PineRead8Request.address request)) (\<lambda>bytes.
      Done bytes))))"

definition PineRead16Request_toBytes :: "PineRead16Request \<Rightarrow> byte list outcome" where
  "PineRead16Request_toBytes request =
     (let bytes = make_bytes 9 in
      and_then (PutUint32 bytes 0 (of_nat (length bytes))) (\<lambda>bytes.
      and_then (set_index bytes 4 1) (\<lambda>bytes.
      and_then (PutUint32 bytes 5 (PineRead16Request.address request)) (\<lambda>bytes.
      Done bytes))))"

definition PineRead32Request_toBytes :: "PineRead32Request \<Rightarrow> byte list outcome" where
  "PineRead32Request_toBytes request =
     (let bytes = make_bytes 9 in
      and_then (PutUint32 bytes 0 (of_nat (length bytes))) (\<lambda>bytes.
      and_then (set_index bytes 4 2) (\<lambda>bytes.
      and_then (PutUint32 bytes 5 (PineRead32Request.address request)) (\<lambda>bytes.
      Done bytes))))"

definition PineRead64Request_toBytes :: "PineRead64Request \<Rightarrow> byte list outcome" where
  "PineRead64Request_toBytes request =
     (let bytes = make_bytes 9 in
      and_then (PutUint32 bytes 0 (of_nat (length bytes))) (\<lambda>bytes.
      and_then (set_index bytes 4 3) (\<lambda>bytes.
      and_then (PutUint32 bytes 5 (PineRead64Request.address request)) (\<lambda>bytes.
      Done bytes))))"

definition PineWrite8Request_toBytes :: "PineWrite8Request \<Rightarrow> byte list outcome" where
  "PineWrite8Request_toBytes request =
     (let bytes = make_bytes 10 in
      and_then (PutUint32 bytes 0 (of_nat (length bytes))) (\<lambda>bytes.
      and_then (set_index bytes 4 4) (\<lambda>bytes.
      and_then (PutUint32 bytes 5 (PineWrite8Request.address request)) (\<lambda>bytes.
      and_then (set_index bytes 9 (PineWrite8Request.data request)) (\<lambda>bytes.
      Done bytes)))))"

definition PineWrite16Request_toBytes :: "PineWrite16Request \<Rightarrow> byte list outcome" where
  "PineWrite16Request_toBytes request =
     (let bytes = make_bytes 11 in
      and_then (PutUint32 bytes 0 (of_nat (length bytes))) (\<lambda>bytes.
      and_then (set_index bytes 4 5) (\<lambda>bytes.
      and_then (PutUint32 bytes 5 (PineWrite16Request.address request)) (\<lambda>bytes.
      and_then (PutUint16 bytes 9 (PineWrite16Request.data request)) (\<lambda>bytes.
      Done bytes)))))"

definition PineWrite32Request_toBytes :: "PineWrite32Request \<Rightarrow> byte list outcome" where
  "PineWrite32Request_toBytes request =
     (let bytes = make_bytes 13 in
      and_then (PutUint32 bytes 0 (of_nat (length bytes))) (\<lambda>bytes.
      and_then (set_index bytes 4 6) (\<lambda>bytes.
      and_then (PutUint32 bytes 5 (PineWrite32Request.address request)) (\<lambda>bytes.
      and_then (PutUint32 bytes 9 (PineWrite32Request.data request)) (\<lambda>bytes.
      Done bytes)))))"

definition PineWrite64Request_toBytes :: "PineWrite64Request \<Rightarrow> byte list outcome" where
  "PineWrite64Request_toBytes request =
     (let bytes = make_bytes 17 in
      and_then (PutUint32 bytes 0 (of_nat (length bytes))) (\<lambda>bytes.
      and_then (set_index bytes 4 7) (\<lambda>bytes.
      and_then (PutUint32 bytes 5 (PineWrite64Request.address request)) (\<lambda>bytes.
      and_then (PutUint64 bytes 9 (PineWrite64Request.data request)) (\<lambda>bytes.
      Done bytes)))))"

definition PineVersionRequest_toBytes :: "byte list outcome" where
  "PineVersionRequest_toBytes =
     (let bytes = make_bytes 5 in
      and_then (PutUint32 bytes 0 (of_nat (length bytes))) (\<lambda>bytes.
      and_then (set_index bytes 4 8) (\<lambda>bytes.
      Done bytes)))"

definition PineSaveStateRequest_toBytes :: "PineSaveStateRequest \<Rightarrow> byte list outcome" where
  "PineSaveStateRequest_toBytes request =
     (let bytes = make_bytes 6 in
      and_then (PutUint32 bytes 0 (of_nat (length bytes))) (\<lambda>bytes.
      and_then (set_index bytes 4 9) (\<lambda>bytes.
      and_then (set_index bytes 5 (PineSaveStateRequest.slot request)) (\<lambda>bytes.
      Done bytes))))"

definition PineLoadStateRequest_toBytes :: "PineLoadStateRequest \<Rightarrow> byte list outcome" where
  "PineLoadStateRequest_toBytes request =
     (let bytes = make_bytes 6 in
      and_then (PutUint32 bytes 0 (of_nat (length bytes))) (\<lambda>bytes.
      and_then (set_index bytes 4 10) (\<lambda>bytes.
      and_then (set_index bytes 5 (PineLoadStateRequest.slot request)) (\<lambda>bytes.
      Done bytes))))"

definition PineTitleRequest_toBytes :: "byte list outcome" where
  "PineTitleRequest_toBytes =
     (let bytes = make_bytes 5 in
      and_then (PutUint32 bytes 0 (of_nat (length bytes))) (\<lambda>bytes.
      and_then (set_index bytes 4 11) (\<lambda>bytes.
      Done bytes)))"

definition PineIDRequest_toBytes :: "byte list outcome" where
  "PineIDRequest_toBytes =
     (let bytes = make_bytes 5 in
      and_then (PutUint32 bytes 0 (of_nat (length bytes))) (\<lambda>bytes.
      and_then (set_index bytes 4 12) (\<lambda>bytes.
      Done bytes)))"

definition PineUUIDRequest_toBytes :: "byte list outcome" where
  "PineUUIDRequest_toBytes =
     (let bytes = make_bytes 5 in
      and_then (PutUint32 bytes 0 (of_nat (length bytes))) (\<lambda>bytes.
      and_then (set_index bytes 4 13) (\<lambda>bytes.
      Done bytes)))"

definition PineGameVersionRequest_toBytes :: "byte list outcome" where
  "PineGameVersionRequest_toBytes =
     (let bytes = make_bytes 5 in
      and_then (PutUint32 bytes 0 (of_nat (length bytes))) (\<lambda>bytes.
      and_then (set_index bytes 4 14) (\<lambda>bytes.
      Done bytes)))"

definition PineStatusRequest_toBytes :: "byte list outcome" where
  "PineStatusRequest_toBytes =
     (let bytes = make_bytes 5 in
      and_then (PutUint32 bytes 0 (of_nat (length bytes))) (\<lambda>bytes.
      and_then (set_index bytes 4 15) (\<lambda>bytes.
      Done bytes)))"

text \<open>
  The interface \<open>PineRequest\<close>: its sixteen implementing types, and the method call
  \<open>request.toBytes()\<close> dispatching on the dynamic type.
\<close>

datatype PineRequest =
    Read8Request PineRead8Request
  | Read16Request PineRead16Request
  | Read32Request PineRead32Request
  | Read64Request PineRead64Request
  | Write8Request PineWrite8Request
  | Write16Request PineWrite16Request
  | Write32Request PineWrite32Request
  | Write64Request PineWrite64Request
  | VersionRequest
  | SaveStateRequest PineSaveStateRequest
  | LoadStateRequest PineLoadStateRequest
  | TitleRequest
  | IDRequest
  | UUIDRequest
  | GameVersionRequest
  | StatusRequest

fun toBytes :: "PineRequest \<Rightarrow> byte list outcome" where
  "toBytes (Read8Request r) = PineRead8Request_toBytes r"
| "toBytes (Read16Request r) = PineRead16Request_toBytes r"
| "toBytes (Read32Request r) = PineRead32Request_toBytes r"
| "toBytes (Read64Request r) = PineRead64Request_toBytes r"
| "toBytes (Write8Request r) = PineWrite8Request_toBytes r"
| "toBytes (Write16Request r) = PineWrite16Request_toBytes r"
| "toBytes (Write32Request r) = PineWrite32Request_toBytes r"
| "toBytes (Write64Request r) = PineWrite64Request_toBytes r"
| "toBytes VersionRequest = PineVersionRequest_toBytes"
| "toBytes (SaveStateRequest r) = PineSaveStateRequest_toBytes r"
| "toBytes (LoadStateRequest r) = PineLoadStateRequest_toBytes r"
| "toBytes TitleRequest = PineTitleRequest_toBytes"
| "toBytes IDRequest = PineIDRequest_toBytes"
| "toBytes UUIDRequest = PineUUIDRequest_toBytes"
| "toBytes GameVersionRequest = PineGameVersionRequest_toBytes"
| "toBytes StatusRequest = PineStatusRequest_toBytes"

section \<open>Answers and their decoding (pine.go, fromBytes)\<close>

text \<open>
  What a call leaves behind besides its result: the calls made to the process-wide
  \<open>logger\<close>, in order. \<open>AttrHexDump bs\<close> stands for the string \<open>hex.Dump(bs)\<close>,
  a rendering of exactly the bytes \<open>bs\<close>.
\<close>

datatype log_attr = AttrUint32 uint32 | AttrHexDump "byte list"

datatype log_call =
    LogError string "(string \<times> log_attr) list"
  | LogDebug string "(string \<times> log_attr) list"

type_synonym 'a logged = "log_call list \<times> 'a outcome"

text \<open>Sequencing: the second statement runs only when the first returned normally.\<close>

definition step :: "'a logged \<Rightarrow> ('a \<Rightarrow> 'b logged) \<Rightarrow> 'b logged" where
  "step m f =
     (case m of
        (ls, Panic) \<Rightarrow> (ls, Panic)
      | (ls, Failed e) \<Rightarrow> (ls, Failed e)
      | (ls, Done x) \<Rightarrow> (case f x of (ls', r) \<Rightarrow> (ls @ ls', r)))"

text \<open>An expression that writes no log.\<close>

definition pure :: "'a outcome \<Rightarrow> 'a logged" where
  "pure r = ([], r)"

definition logger_Error :: "string \<Rightarrow> (string \<times> log_attr) list \<Rightarrow> unit logged" where
  "logger_Error msg attrs = ([LogError msg attrs], Done ())"

definition logger_Debug :: "string \<Rightarrow> (string \<times> log_attr) list \<Rightarrow> unit logged" where
  "logger_Debug msg attrs = ([LogDebug msg attrs], Done ())"

text \<open>\<open>return errors.New(msg)\<close> and \<open>return nil\<close> (with the struct as written so far).\<close>

definition return_error :: "string \<Rightarrow> 'a logged" where
  "return_error msg = ([], Failed msg)"

definition return_nil :: "'a \<Rightarrow> 'a logged" where
  "return_nil answer = ([], Done answer)"

text \<open>
  \<open>string(b)\<close> keeps the bytes; \<open>strings.CutSuffix(s, suffix)\<close> removes one trailing
  occurrence of \<open>suffix\<close> and says whether it did.
\<close>

definition string_of_bytes :: "go_slice \<Rightarrow> string" where
  "string_of_bytes b = map (\<lambda>x. char_of (unat x)) (elems b)"

definition CutSuffix :: "string \<Rightarrow> string \<Rightarrow> string \<times> bool" where
  "CutSuffix s suf =
     (if suffix suf s then (take (length s - length suf) s, True) else (s, False))"

definition NUL :: string where
  "NUL = [CHR 0x00]"

record PineRead8Answer =
  resultCode :: byte
  memoryValue :: byte

record PineRead16Answer =
  resultCode :: byte
  memoryValue :: uint16

record PineRead32Answer =
  resultCode :: byte
  memoryValue :: uint32

record PineRead64Answer =
  resultCode :: byte
  memoryValue :: uint64

record PineWrite8Answer =
  resultCode :: byte

record PineWrite16Answer =
  resultCode :: byte

record PineWrite32Answer =
  resultCode :: byte

record PineWrite64Answer =
  resultCode :: byte

record PineVersionAnswer =
  resultCode :: byte
  version :: string

record PineSaveStateAnswer =
  resultCode :: byte

record PineLoadStateAnswer =
  resultCode :: byte

record PineTitleAnswer =
  resultCode :: byte
  title :: string

record PineIDAnswer =
  resultCode :: byte
  id_string :: string

record PineUUIDAnswer =
  resultCode :: byte
  uuid :: string

record PineGameVersionAnswer =
  resultCode :: byte
  gameVersion :: string

record PineStatusAnswer =
  resultCode :: byte
  status :: uint32

definition PineRead8Answer_fromBytes ::
    "PineRead8Answer \<Rightarrow> go_slice \<Rightarrow> PineRead8Answer logged" where
  "PineRead8Answer_fromBytes answer bytes =
     step (pure (and_then (slice_from bytes 0) Uint32)) (\<lambda>length.
     if length \<noteq> 5 \<and> length \<noteq> 6 then
       step (logger_Error ''unexpected length (length != 5 && length != 6)''
               [(''length'', AttrUint32 length), (''bytes'', AttrHexDump (elems bytes))]) (\<lambda>_.
       return_error ''length of bytes for PineStatusAnswer != 5 or 6'')
     else
       step (logger_Debug ''answer bytes'' [(''bytes'', AttrHexDump (elems bytes))]) (\<lambda>_.
       step (pure (index bytes 4)) (\<lambda>b4.
       step (pure (index bytes 5)) (\<lambda>v.
       return_nil (answer\<lparr>PineRead8Answer.resultCode := b4,
                             PineRead8Answer.memoryValue := v\<rparr>)))))"

definition PineRead16Answer_fromBytes ::
    "PineRead16Answer \<Rightarrow> go_slice \<Rightarrow> PineRead16Answer logged" where
  "PineRead16Answer_fromBytes answer bytes =
     step (pure (and_then (slice_from bytes 0) Uint32)) (\<lambda>length.
     if length \<noteq> 5 \<and> length \<noteq> 7 then
       step (logger_Error ''unexpected length (length != 5 && length != 7)''
               [(''length'', AttrUint32 length), (''bytes'', AttrHexDump (elems bytes))]) (\<lambda>_.
       return_error ''length of bytes for PineStatusAnswer != 5 or 7'')
     else
       step (logger_Debug ''answer bytes'' [(''bytes'', AttrHexDump (elems bytes))]) (\<lambda>_.
       step (pure (index bytes 4)) (\<lambda>b4.
       step (pure (and_then (slice_from bytes 5) Uint16)) (\<lambda>v.
       return_nil (answer\<lparr>PineRead16Answer.resultCode := b4,
                             PineRead16Answer.memoryValue := v\<rparr>)))))"

definition PineRead32Answer_fromBytes ::
    "PineRead32Answer \<Rightarrow> go_slice \<Rightarrow> PineRead32Answer logged" where
  "PineRead32Answer_fromBytes answer bytes =
     step (pure (and_then (slice_from bytes 0) Uint32)) (\<lambda>length.
     if length \<noteq> 5 \<and> length \<noteq> 9 then
       step (logger_Error ''unexpected length (length != 5 && length != 9)''
               [(''length'', AttrUint32 length), (''bytes'', AttrHexDump (elems bytes))]) (\<lambda>_.
       return_error ''length of bytes for PineStatusAnswer != 5 or 9'')
     else
       step (logger_Debug ''answer bytes'' [(''bytes'', AttrHexDump (elems bytes))]) (\<lambda>_.
       step (pure (index bytes 4)) (\<lambda>b4.
       step (pure (and_then (slice_from bytes 5) Uint32)) (\<lambda>v.
       return_nil (answer\<lparr>PineRead32Answer.resultCode := b4,
                             PineRead32Answer.memoryValue := v\<rparr>)))))"

definition PineRead64Answer_fromBytes ::
    "PineRead64Answer \<Rightarrow> go_slice \<Rightarrow> PineRead64Answer logged" where
  "PineRead64Answer_fromBytes answer bytes =
     step (pure (and_then (slice_from bytes 0) Uint32)) (\<lambda>length.
     if length \<noteq> 5 \<and> length \<noteq> 13 then
       step (logger_Error ''unexpected length (length != 5 && length != 13)''
               [(''length'', AttrUint32 length), (''bytes'', AttrHexDump (elems bytes))]) (\<lambda>_.
       return_error ''length of bytes for PineStatusAnswer != 5 or 13'')
     else
       step (logger_Debug ''answer bytes'' [(''bytes'', AttrHexDump (elems bytes))]) (\<lambda>_.
       step (pure (index bytes 4)) (\<lambda>b4.
       step (pure (and_then (slice_from bytes 5) Uint64)) (\<lambda>v.
       return_nil (answer\<lparr>PineRead64Answer.resultCode := b4,
                             PineRead64Answer.memoryValue := v\<rparr>)))))"

definition PineWrite8Answer_fromBytes ::
    "PineWrite8Answer \<Rightarrow> go_slice \<Rightarrow> PineWrite8Answer logged" where
  "PineWrite8Answer_fromBytes answer bytes =
     step (pure (and_then (slice_from bytes 0) Uint32)) (\<lambda>length.
     if length \<noteq> 5 then
       step (logger_Error ''unexpected length (length != 5)''
               [(''length'', AttrUint32 length), (''bytes'', AttrHexDump (elems bytes))]) (\<lambda>_.
       return_error ''length of bytes for PineStatusAnswer != 5'')
     else
       step (logger_Debug ''answer bytes'' [(''bytes'', AttrHexDump (elems bytes))]) (\<lambda>_.
       step (pure (index bytes 4)) (\<lambda>b4.
       return_nil (answer\<lparr>PineWrite8Answer.resultCode := b4\<rparr>))))"

definition PineWrite16Answer_fromBytes ::
    "PineWrite16Answer \<Rightarrow> go_slice \<Rightarrow> PineWrite16Answer logged" where
  "PineWrite16Answer_fromBytes answer bytes =
     step (pure (and_then (slice_from bytes 0) Uint32)) (\<lambda>length.
     if length \<noteq> 5 then
       step (logger_Error ''unexpected length (length != 5)''
               [(''length'', AttrUint32 length), (''bytes'', AttrHexDump (elems bytes))]) (\<lambda>_.
       return_error ''length of bytes for PineStatusAnswer != 5'')
     else
       step (logger_Debug ''answer bytes'' [(''bytes'', AttrHexDump (elems bytes))]) (\<lambda>_.
       step (pure (index bytes 4)) (\<lambda>b4.
       return_nil (answer\<lparr>PineWrite16Answer.resultCode := b4\<rparr>))))"

definition PineWrite32Answer_fromBytes ::
    "PineWrite32Answer \<Rightarrow> go_slice \<Rightarrow> PineWrite32Answer logged" where
  "PineWrite32Answer_fromBytes answer bytes =
     step (pure (and_then (slice_from bytes 0) Uint32)) (\<lambda>length.
     if length \<noteq> 5 then
       step (logger_Error ''unexpected length (length != 5)''
               [(''length'', AttrUint32 length), (''bytes'', AttrHexDump (elems bytes))]) (\<lambda>_.
       return_error ''length of bytes for PineStatusAnswer != 5'')
     else
       step (logger_Debug ''answer bytes'' [(''bytes'', AttrHexDump (elems bytes))]) (\<lambda>_.
       step (pure (index bytes 4)) (\<lambda>b4.
       return_nil (answer\<lparr>PineWrite32Answer.resultCode := b4\<rparr>))))"

definition PineWrite64Answer_fromBytes ::
    "PineWrite64Answer \<Rightarrow> go_slice \<Rightarrow> PineWrite64Answer logged" where
  "PineWrite64Answer_fromBytes answer bytes =
     step (pure (and_then (slice_from bytes 0) Uint32)) (\<lambda>length.
     if length \<noteq> 5 then
       step (logger_Error ''unexpected length (length != 5)''
               [(''length'', AttrUint32 length), (''bytes'', AttrHexDump (elems bytes))]) (\<lambda>_.
       return_error ''length of bytes for PineStatusAnswer != 5'')
     else
       step (logger_Debug ''answer bytes'' [(''bytes'', AttrHexDump (elems bytes))]) (\<lambda>_.
       step (pure (index bytes 4)) (\<lambda>b4.
       return_nil (answer\<lparr>PineWrite64Answer.resultCode := b4\<rparr>))))"

text \<open>
  The five string answers. \<open>9+versionStringLength\<close> is \<open>uint32\<close> arithmetic and
  wraps; the slice expression \<open>bytes[9 : 9+versionStringLength]\<close> is checked against the
  capacity of \<open>bytes\<close>.
\<close>

definition PineVersionAnswer_fromBytes ::
    "PineVersionAnswer \<Rightarrow> go_slice \<Rightarrow> PineVersionAnswer logged" where
  "PineVersionAnswer_fromBytes answer bytes =
     step (pure (and_then (slice_from bytes 0) Uint32)) (\<lambda>length.
     if length < 10 then
       return_error ''bytes for PineVersionAnswer < 10''
     else
       step (logger_Debug ''version string'' [(''bytes'', AttrHexDump (elems bytes))]) (\<lambda>_.
       step (pure (index bytes 4)) (\<lambda>b4.
       step (pure (and_then (slice_from bytes 5) Uint32)) (\<lambda>versionStringLength.
       if versionStringLength > 0 then
         step (pure (slice_from_to bytes 9 (unat (9 + versionStringLength)))) (\<lambda>b.
         return_nil (answer\<lparr>PineVersionAnswer.resultCode := b4,
                               PineVersionAnswer.version := fst (CutSuffix (string_of_bytes b) NUL)\<rparr>))
       else
         return_nil (answer\<lparr>PineVersionAnswer.resultCode := b4, PineVersionAnswer.version := ''''\<rparr>)))))"

definition PineSaveStateAnswer_fromBytes ::
    "PineSaveStateAnswer \<Rightarrow> go_slice \<Rightarrow> PineSaveStateAnswer logged" where
  "PineSaveStateAnswer_fromBytes answer bytes =
     step (pure (and_then (slice_from bytes 0) Uint32)) (\<lambda>length.
     if length \<noteq> 5 then
       step (logger_Error ''unexpected length (length != 5)''
               [(''length'', AttrUint32 length), (''bytes'', AttrHexDump (elems bytes))]) (\<lambda>_.
       return_error ''length of bytes for PineSaveStateAnswer != 5'')
     else
       step (logger_Debug ''answer bytes'' [(''bytes'', AttrHexDump (elems bytes))]) (\<lambda>_.
       step (pure (index bytes 4)) (\<lambda>b4.
       return_nil (answer\<lparr>PineSaveStateAnswer.resultCode := b4\<rparr>))))"

definition PineLoadStateAnswer_fromBytes ::
    "PineLoadStateAnswer \<Rightarrow> go_slice \<Rightarrow> PineLoadStateAnswer logged" where
  "PineLoadStateAnswer_fromBytes answer bytes =
     step (pure (and_then (slice_from bytes 0) Uint32)) (\<lambda>length.
     if length \<noteq> 5 then
       step (logger_Error ''unexpected length (length != 5)''
               [(''length'', AttrUint32 length), (''bytes'', AttrHexDump (elems bytes))]) (\<lambda>_.
       return_error ''length of bytes for PineLoadStateAnswer != 5'')
     else
       step (logger_Debug ''answer bytes'' [(''bytes'', AttrHexDump (elems bytes))]) (\<lambda>_.
       step (pure (index bytes 4)) (\<lambda>b4.
       return_nil (answer\<lparr>PineLoadStateAnswer.resultCode := b4\<rparr>))))"

definition PineTitleAnswer_fromBytes ::
    "PineTitleAnswer \<Rightarrow> go_slice \<Rightarrow> PineTitleAnswer logged" where
  "PineTitleAnswer_fromBytes answer bytes =
     step (pure (and_then (slice_from bytes 0) Uint32)) (\<lambda>length.
     if length < 10 then
       return_error ''bytes for PineVersionAnswer < 10''
     else
       step (logger_Debug ''version string'' [(''bytes'', AttrHexDump (elems bytes))]) (\<lambda>_.
       step (pure (index bytes 4)) (\<lambda>b4.
       step (pure (and_then (slice_from bytes 5) Uint32)) (\<lambda>versionStringLength.
       if versionStringLength > 0 then
         step (pure (slice_from_to bytes 9 (unat (9 + versionStringLength)))) (\<lambda>b.
         return_nil (answer\<lparr>PineTitleAnswer.resultCode := b4,
                               PineTitleAnswer.title := fst (CutSuffix (string_of_bytes b) NUL)\<rparr>))
       else
         return_nil (answer\<lparr>PineTitleAnswer.resultCode := b4, PineTitleAnswer.title := ''''\<rparr>)))))"

definition PineIDAnswer_fromBytes ::
    "PineIDAnswer \<Rightarrow> go_slice \<Rightarrow> PineIDAnswer logged" where
  "PineIDAnswer_fromBytes answer bytes =
     step (pure (and_then (slice_from bytes 0) Uint32)) (\<lambda>length.
     if length < 10 then
       return_error ''bytes for PineVersionAnswer < 10''
     else
       step (logger_Debug ''version string'' [(''bytes'', AttrHexDump (elems bytes))]) (\<lambda>_.
       step (pure (index bytes 4)) (\<lambda>b4.
       step (pure (and_then (slice_from bytes 5) Uint32)) (\<lambda>versionStringLength.
       if versionStringLength > 0 then
         step (pure (slice_from_to bytes 9 (unat (9 + versionStringLength)))) (\<lambda>b.
         return_nil (answer\<lparr>PineIDAnswer.resultCode := b4,
                               PineIDAnswer.id_string := fst (CutSuffix (string_of_bytes b) NUL)\<rparr>))
       else
         return_nil (answer\<lparr>PineIDAnswer.resultCode := b4, PineIDAnswer.id_string := ''''\<rparr>)))))"

definition PineUUIDAnswer_fromBytes ::
    "PineUUIDAnswer \<Rightarrow> go_slice \<Rightarrow> PineUUIDAnswer logged" where
  "PineUUIDAnswer_fromBytes answer bytes =
     step (pure (and_then (slice_from bytes 0) Uint32)) (\<lambda>length.
     if length < 10 then
       return_error ''bytes for PineVersionAnswer < 10''
     else
       step (logger_Debug ''version string'' [(''bytes'', AttrHexDump (elems bytes))]) (\<lambda>_.
       step (pure (index bytes 4)) (\<lambda>b4.
       step (pure (and_then (slice_from bytes 5) Uint32)) (\<lambda>versionStringLength.
       if versionStringLength > 0 then
         step (pure (slice_from_to bytes 9 (unat (9 + versionStringLength)))) (\<lambda>b.
         return_nil (answer\<lparr>PineUUIDAnswer.resultCode := b4,
                               PineUUIDAnswer.uuid := fst (CutSuffix (string_of_bytes b) NUL)\<rparr>))
       else
         return_nil (answer\<lparr>PineUUIDAnswer.resultCode := b4, PineUUIDAnswer.uuid := ''''\<rparr>)))))"

definition PineGameVersionAnswer_fromBytes ::
    "PineGameVersionAnswer \<Rightarrow> go_slice \<Rightarrow> PineGameVersionAnswer logged" where
  "PineGameVersionAnswer_fromBytes answer bytes =
     step (pure (and_then (slice_from bytes 0) Uint32)) (\<lambda>length.
     if length < 10 then
       return_error ''bytes for PineVersionAnswer < 10''
     else
       step (logger_Debug ''version string'' [(''bytes'', AttrHexDump (elems bytes))]) (\<lambda>_.
       step (pure (index bytes 4)) (\<lambda>b4.
       step (pure (and_then (slice_from bytes 5) Uint32)) (\<lambda>versionStringLength.
       if versionStringLength > 0 then
         step (pure (slice_from_to bytes 9 (unat (9 + versionStringLength)))) (\<lambda>b.
         return_nil (answer\<lparr>PineGameVersionAnswer.resultCode := b4,
                               PineGameVersionAnswer.gameVersion := fst (CutSuffix (string_of_bytes b) NUL)\<rparr>))
       else
         return_nil (answer\<lparr>PineGameVersionAnswer.resultCode := b4, PineGameVersionAnswer.gameVersion := ''''\<rparr>)))))"

definition PineStatusAnswer_fromBytes ::
    "PineStatusAnswer \<Rightarrow> go_slice \<Rightarrow> PineStatusAnswer logged" where
  "PineStatusAnswer_fromBytes answer bytes =
     step (pure (and_then (slice_from bytes 0) Uint32)) (\<lambda>length.
     if length \<noteq> 5 \<and> length \<noteq> 9 then
       step (logger_Error ''unexpected length (length != 5 && length != 9)''
               [(''length'', AttrUint32 length), (''bytes'', AttrHexDump (elems bytes))]) (\<lambda>_.
       return_error ''length of bytes for PineStatusAnswer != 5 or 9'')
     else
       step (logger_Debug ''status answer bytes''
               [(''length'', AttrUint32 length), (''bytes'', AttrHexDump (elems bytes))]) (\<lambda>_.
       step (pure (index bytes 4)) (\<lambda>b4.
       step (if length = 9
             then step (pure (and_then (slice_from bytes 5) Uint32)) (\<lambda>v.
                  return_nil (answer\<lparr>PineStatusAnswer.resultCode := b4,
                                        PineStatusAnswer.status := v\<rparr>))
             else return_nil (answer\<lparr>PineStatusAnswer.resultCode := b4\<rparr>)) (\<lambda>answer.
       step (logger_Debug ''status answer''
               [(''answer.status'', AttrUint32 (PineStatusAnswer.status answer))]) (\<lambda>_.
       return_nil answer)))))"

text \<open>
  The statements the five string decoders share, up to the struct they write: the result
  code and the string read from the frame. It is a device of the proofs below, which
  show each of the five decoders equal to it followed by the two field writes.
\<close>

definition string_answer_core :: "go_slice \<Rightarrow> (byte \<times> string) logged" where
  "string_answer_core bytes =
     step (pure (and_then (slice_from bytes 0) Uint32)) (\<lambda>length.
     if length < 10 then
       return_error ''bytes for PineVersionAnswer < 10''
     else
       step (logger_Debug ''version string'' [(''bytes'', AttrHexDump (elems bytes))]) (\<lambda>_.
       step (pure (index bytes 4)) (\<lambda>b4.
       step (pure (and_then (slice_from bytes 5) Uint32)) (\<lambda>versionStringLength.
       if versionStringLength > 0 then
         step (pure (slice_from_to bytes 9 (unat (9 + versionStringLength)))) (\<lambda>b.
         return_nil (b4, fst (CutSuffix (string_of_bytes b) NUL)))
       else
         return_nil (b4, '''')))))"

text \<open>
  The interface \<open>PineAnswer\<close>: its sixteen implementing types, and the method call
  \<open>answer.fromBytes(bytes)\<close> dispatching on the dynamic type. The result \<open>Done a\<close> is
  the struct behind the receiver after a \<open>nil\<close> return; after an error return the
  struct is as it was.
\<close>

datatype PineAnswer =
    Read8Answer PineRead8Answer
  | Read16Answer PineRead16Answer
  | Read32Answer PineRead32Answer
  | Read64Answer PineRead64Answer
  | Write8Answer PineWrite8Answer
  | Write16Answer PineWrite16Answer
  | Write32Answer PineWrite32Answer
  | Write64Answer PineWrite64Answer
  | VersionAnswer PineVersionAnswer
  | SaveStateAnswer PineSaveStateAnswer
  | LoadStateAnswer PineLoadStateAnswer
  | TitleAnswer PineTitleAnswer
  | IDAnswer PineIDAnswer
  | UUIDAnswer PineUUIDAnswer
  | GameVersionAnswer PineGameVersionAnswer
  | StatusAnswer PineStatusAnswer

definition wrap :: "('a \<Rightarrow> PineAnswer) \<Rightarrow> 'a logged \<Rightarrow> PineAnswer logged" where
  "wrap C m = step m (\<lambda>a. return_nil (C a))"

fun fromBytes :: "PineAnswer \<Rightarrow> go_slice \<Rightarrow> PineAnswer logged" where
  "fromBytes (Read8Answer a) bytes = wrap Read8Answer (PineRead8Answer_fromBytes a bytes)"
| "fromBytes (Read16Answer a) bytes = wrap Read16Answer (PineRead16Answer_fromBytes a bytes)"
| "fromBytes (Read32Answer a) bytes = wrap Read32Answer (PineRead32Answer_fromBytes a bytes)"
| "fromBytes (Read64Answer a) bytes = wrap Read64Answer (PineRead64Answer_fromBytes a bytes)"
| "fromBytes (Write8Answer a) bytes = wrap Write8Answer (PineWrite8Answer_fromBytes a bytes)"
| "fromBytes (Write16Answer a) bytes = wrap Write16Answer (PineWrite16Answer_fromBytes a bytes)"
| "fromBytes (Write32Answer a) bytes = wrap Write32Answer (PineWrite32Answer_fromBytes a bytes)"
| "fromBytes (Write64Answer a) bytes = wrap Write64Answer (PineWrite64Answer_fromBytes a bytes)"
| "fromBytes (VersionAnswer a) bytes = wrap VersionAnswer (PineVersionAnswer_fromBytes a bytes)"
| "fromBytes (SaveStateAnswer a) bytes =
     wrap SaveStateAnswer (PineSaveStateAnswer_fromBytes a bytes)"
| "fromBytes (LoadStateAnswer a) bytes =
     wrap LoadStateAnswer (PineLoadStateAnswer_fromBytes a bytes)"
| "fromBytes (TitleAnswer a) bytes = wrap TitleAnswer (PineTitleAnswer_fromBytes a bytes)"
| "fromBytes (IDAnswer a) bytes = wrap IDAnswer (PineIDAnswer_fromBytes a bytes)"
| "fromBytes (UUIDAnswer a) bytes = wrap UUIDAnswer (PineUUIDAnswer_fromBytes a bytes)"
| "fromBytes (GameVersionAnswer a) bytes =
     wrap GameVersionAnswer (PineGameVersionAnswer_fromBytes a bytes)"
| "fromBytes (StatusAnswer a) bytes = wrap StatusAnswer (PineStatusAnswer_fromBytes a bytes)"

section \<open>Transport resolution (pine.go, NewPineConnection and findSocketPath)\<close>

text \<open>
  The inputs the resolver takes from its surroundings: \<open>runtime.GOOS\<close>, the process
  environment read by \<open>os.Getenv\<close> (the empty string when a variable is unset), and
  the code address of the iterator function that \<open>maps.Keys\<close> returns.
\<close>

record go_env =
  GOOS :: string
  Getenv :: "string \<Rightarrow> string"
  keys_iter_addr :: nat

text \<open>
  \<open>fmt\<close> with the verb \<open>%v\<close> (and \<open>fmt.Sprint\<close>) on the three kinds of operand the
  resolver formats: a string is copied, an unsigned integer is written in decimal, and a
  function value is written as its address, \<open>0x\<close> and lower-case hexadecimal digits
  (\<open><nil>\<close> for a nil function).
\<close>

datatype go_value = VString string | VUint16 uint16 | VFunc nat

fun decimal :: "nat \<Rightarrow> string" where
  "decimal n =
     (if n < 10 then [''0123456789'' ! n]
      else decimal (n div 10) @ [''0123456789'' ! (n mod 10)])"

fun hexadecimal :: "nat \<Rightarrow> string" where
  "hexadecimal n =
     (if n < 16 then [''0123456789abcdef'' ! n]
      else hexadecimal (n div 16) @ [''0123456789abcdef'' ! (n mod 16)])"

declare decimal.simps [simp del] hexadecimal.simps [simp del]

fun fmt_v :: "go_value \<Rightarrow> string" where
  "fmt_v (VString s) = s"
| "fmt_v (VUint16 n) = decimal (unat n)"
| "fmt_v (VFunc a) = (if a = 0 then ''<nil>'' else ''0x'' @ hexadecimal a)"

text \<open>
  \<open>defaultSlotForTargetMap\<close>, by its entries. The standard library's \<open>maps.Keys\<close>
  (package \<open>maps\<close> as imported by pine.go) returns an iterator, \<open>iter.Seq[string]\<close>,
  which is a function value: the keys are produced only when it is ranged over.
\<close>

definition defaultSlotForTargetMap_entries :: "(string \<times> uint16) list" where
  "defaultSlotForTargetMap_entries = [(''pcsx2'', 28011), (''rpcs3'', 28012)]"

definition defaultSlotForTargetMap :: "string \<rightharpoonup> uint16" where
  "defaultSlotForTargetMap = map_of defaultSlotForTargetMap_entries"

definition maps_Keys :: "go_env \<Rightarrow> (string \<rightharpoonup> uint16) \<Rightarrow> go_value" where
  "maps_Keys env m = VFunc (keys_iter_addr env)"

record PineConnection =
  network :: string
  address :: string

definition findSocketPath :: "go_env \<Rightarrow> string \<Rightarrow> uint16 \<Rightarrow> string" where
  "findSocketPath env target slot' =
     (let dir =
        (if GOOS env = ''linux'' \<and> Getenv env ''XDG_RUNTIME_DIR'' \<noteq> ''''
         then Getenv env ''XDG_RUNTIME_DIR''
         else if GOOS env = ''darwin'' \<and> Getenv env ''TMPDIR'' \<noteq> ''''
         then Getenv env ''TMPDIR''
         else ''/tmp'');
          file = target @ ''.sock.'' @ fmt_v (VUint16 slot')
      in dir @ ''/'' @ file)"

text \<open>The result is \<open>Inl\<close> of the error message, or \<open>Inr\<close> of the connection.\<close>

definition NewPineConnection :: "go_env \<Rightarrow> string \<Rightarrow> uint16 \<Rightarrow> string + PineConnection" where
  "NewPineConnection env target slot' =
     (if target = '''' then
        Inl ''empty string provided for target name when creating PINE connection''
      else
        (case (if slot' = 0 then
                 (case defaultSlotForTargetMap target of
                    None \<Rightarrow>
                      (let targetNames = maps_Keys env defaultSlotForTargetMap;
                           errorMessage =
                             ''unknown target '' @ [CHR 0x22] @ fmt_v (VString target) @ [CHR 0x22]
                             @ '' when finding slot for target. Supported values are ''
                             @ fmt_v targetNames
                       in Inl errorMessage)
                  | Some found \<Rightarrow> Inr found)
               else Inr slot') of
           Inl err \<Rightarrow> Inl err
         | Inr slot' \<Rightarrow>
             if GOOS env = ''windows'' then
               Inr \<lparr>network = ''tcp'', address = '':'' @ fmt_v (VUint16 slot')\<rparr>
             else if GOOS env = ''darwin'' \<or> GOOS env = ''linux'' then
               Inr \<lparr>network = ''unix'', address = findSocketPath env target slot'\<rparr>
             else Inl ''unknown operating system when creating PineConnection''))"

section \<open>Connecting (pine.go, connect and TestConnection)\<close>

text \<open>
  \<open>strings.LastIndex(s, substr)\<close>: the greatest index at which \<open>substr\<close> starts in
  \<open>s\<close>, or \<open>-1\<close>. \<open>s[:i]\<close> on a string panics unless \<open>0 \<le> i \<le> len(s)\<close>.
\<close>

fun last_index_from :: "nat \<Rightarrow> string \<Rightarrow> string \<Rightarrow> int" where
  "last_index_from 0 s substr = (if prefix substr s then 0 else - 1)"
| "last_index_from (Suc i) s substr =
     (if prefix substr (drop (Suc i) s) then int (Suc i) else last_index_from i s substr)"

definition LastIndex :: "string \<Rightarrow> string \<Rightarrow> int" where
  "LastIndex s substr =
     (if length s < length substr then - 1
      else last_index_from (length s - length substr) s substr)"

definition string_upto :: "string \<Rightarrow> int \<Rightarrow> string outcome" where
  "string_upto s i = (if 0 \<le> i \<and> i \<le> int (length s) then Done (take (nat i) s) else Panic)"

text \<open>
  What the network does is an input: in probe round \<open>r\<close> of the session manager,
  \<open>dial_ok w r network address\<close> says whether \<open>net.Dial\<close> succeeds and
  \<open>close_error w r network address\<close> is what \<open>Close\<close> on that connection returns
  (\<open>None\<close> for nil); \<open>range_order w r\<close> is the order in which the \<open>range\<close> statement
  of round \<open>r\<close> yields the entries of the map, which the language leaves unspecified.
  A call leaves behind the network operations and sleeps it performed, in order.
\<close>

record world =
  dial_ok :: "nat \<Rightarrow> string \<Rightarrow> string \<Rightarrow> bool"
  close_error :: "nat \<Rightarrow> string \<Rightarrow> string \<Rightarrow> string option"
  range_order :: "nat \<Rightarrow> (string \<times> uint16) list"

datatype net_event = Dial string string | Close string string | Sleep_seconds nat

type_synonym conn = "string \<times> string"

definition connect ::
    "world \<Rightarrow> nat \<Rightarrow> PineConnection \<Rightarrow> net_event list \<times> conn outcome" where
  "connect w r connection =
     (if dial_ok w r (network connection) (address connection) then
        ([Dial (network connection) (address connection)],
         Done (network connection, address connection))
      else if network connection = ''unix'' then
        (case string_upto (address connection) (LastIndex (address connection) ''.'') of
           Done addressWithoutSlot \<Rightarrow>
             ([Dial (network connection) (address connection),
               Dial (network connection) addressWithoutSlot],
              if dial_ok w r (network connection) addressWithoutSlot
              then Done (network connection, addressWithoutSlot)
              else Failed (''could not connect to PINE at '' @ [CHR 0x22]
                           @ address connection @ [CHR 0x22]))
         | Failed e \<Rightarrow> ([Dial (network connection) (address connection)], Failed e)
         | Panic \<Rightarrow> ([Dial (network connection) (address connection)], Panic))
      else
        ([Dial (network connection) (address connection)],
         Failed (''could not connect to PINE at '' @ [CHR 0x22]
                 @ address connection @ [CHR 0x22])))"

definition TestConnection ::
    "world \<Rightarrow> nat \<Rightarrow> PineConnection \<Rightarrow> net_event list \<times> unit outcome" where
  "TestConnection w r connection =
     (case connect w r connection of
        (evs, Done (n, a)) \<Rightarrow>
          (evs @ [Close n a],
           case close_error w r n a of None \<Rightarrow> Done () | Some e \<Rightarrow> Failed e)
      | (evs, Failed e) \<Rightarrow> (evs, Failed e)
      | (evs, Panic) \<Rightarrow> (evs, Panic))"

section \<open>The session manager (the loop of main)\<close>

text \<open>
  \<open>func main\<close> is in \<open>src/Taskfile.yml\<close>, where the Go file follows the task
  definitions.

  The inner \<open>for ... range defaultSlotForTargetMap\<close> loop over the entries in the order
  the \<open>range\<close> statement yields them; \<open>pc\<close> is the process-wide connection variable
  (\<open>None\<close> for nil). The calls to the logger are left out.
\<close>

fun probe_targets ::
    "go_env \<Rightarrow> world \<Rightarrow> nat \<Rightarrow> (string \<times> uint16) list \<Rightarrow> PineConnection option
     \<Rightarrow> net_event list \<times> PineConnection option outcome" where
  "probe_targets env w r [] pc = ([], Done pc)"
| "probe_targets env w r ((target, defaultSlot) # rest) pc =
     (case NewPineConnection env target defaultSlot of
        Inl err \<Rightarrow> probe_targets env w r rest None
      | Inr c \<Rightarrow>
          (case TestConnection w r c of
             (evs, Done _) \<Rightarrow> (evs, Done (Some c))
           | (evs, Failed e) \<Rightarrow>
               (case probe_targets env w r rest None of (evs', res) \<Rightarrow> (evs @ evs', res))
           | (evs, Panic) \<Rightarrow> (evs, Panic)))"

text \<open>
  The outer \<open>for\<close> loop, which has no exit. \<open>main_loop env w fuel r pc\<close> runs at most
  \<open>fuel\<close> probe rounds starting with round \<open>r\<close>. It stops with \<open>Connected c\<close> at the
  call of \<open>serviceAPIRequests\<close>, and with \<open>Disconnected\<close> when the rounds are used up
  and the loop is about to probe again.
\<close>

datatype session = Disconnected | Connected PineConnection

fun main_loop ::
    "go_env \<Rightarrow> world \<Rightarrow> nat \<Rightarrow> nat \<Rightarrow> PineConnection option
     \<Rightarrow> net_event list \<times> session outcome" where
  "main_loop env w 0 r pc = ([], Done Disconnected)"
| "main_loop env w (Suc fuel) r pc =
     (case probe_targets env w r (range_order w r) pc of
        (evs, Done None) \<Rightarrow>
          (case main_loop env w fuel (Suc r) None of
             (evs', res) \<Rightarrow> (evs @ [Sleep_seconds 5] @ evs', res))
      | (evs, Done (Some c)) \<Rightarrow> (evs, Done (Connected c))
      | (evs, Failed e) \<Rightarrow> (evs, Failed e)
      | (evs, Panic) \<Rightarrow> (evs, Panic))"

section \<open>The properties, in the specification's words\<close>

text \<open>
  The accepted declared lengths of an answer frame, by operation: a fixed set for the
  reads, the writes, save-state, load-state and status, a minimum for the five string
  answers.
\<close>

datatype length_rule = Exactly "nat list" | AtLeast nat

fun length_rule_of :: "PineAnswer \<Rightarrow> length_rule" where
  "length_rule_of (Read8Answer _) = Exactly [5, 5 + 8 div 8]"
| "length_rule_of (Read16Answer _) = Exactly [5, 5 + 16 div 8]"
| "length_rule_of (Read32Answer _) = Exactly [5, 5 + 32 div 8]"
| "length_rule_of (Read64Answer _) = Exactly [5, 5 + 64 div 8]"
| "length_rule_of (Write8Answer _) = Exactly [5]"
| "length_rule_of (Write16Answer _) = Exactly [5]"
| "length_rule_of (Write32Answer _) = Exactly [5]"
| "length_rule_of (Write64Answer _) = Exactly [5]"
| "length_rule_of (VersionAnswer _) = AtLeast 10"
| "length_rule_of (SaveStateAnswer _) = Exactly [5]"
| "length_rule_of (LoadStateAnswer _) = Exactly [5]"
| "length_rule_of (TitleAnswer _) = AtLeast 10"
| "length_rule_of (IDAnswer _) = AtLeast 10"
| "length_rule_of (UUIDAnswer _) = AtLeast 10"
| "length_rule_of (GameVersionAnswer _) = AtLeast 10"
| "length_rule_of (StatusAnswer _) = Exactly [5, 9]"

fun accepted :: "length_rule \<Rightarrow> nat \<Rightarrow> bool" where
  "accepted (Exactly ns) n = (n \<in> set ns)"
| "accepted (AtLeast m) n = (m \<le> n)"

text \<open>
  The longest fixed layout of an answer, which is all a decoder indexes: the longest
  accepted length, and for a string answer the nine bytes before the string (length,
  result code, string length).
\<close>

fun full_layout :: "PineAnswer \<Rightarrow> nat" where
  "full_layout a = (case length_rule_of a of Exactly ns \<Rightarrow> Max (set ns) | AtLeast m \<Rightarrow> 9)"

text \<open>
  The string of a string answer lies inside the array behind the slice: its end
  \<open>9 + n\<close>, for the string length \<open>n\<close> read at offset 5, fits 32 bits and the
  capacity.
\<close>

definition string_in_range :: "go_slice \<Rightarrow> bool" where
  "string_in_range bytes =
     (case and_then (slice_from bytes 5) Uint32 of
        Done n \<Rightarrow> n = 0 \<or> (9 + unat n < 2 ^ 32 \<and> 9 + unat n \<le> cap bytes)
      | _ \<Rightarrow> False)"

text \<open>The result code and, for the string answers, the decoded string.\<close>

fun result_code :: "PineAnswer \<Rightarrow> byte" where
  "result_code (Read8Answer a) = PineRead8Answer.resultCode a"
| "result_code (Read16Answer a) = PineRead16Answer.resultCode a"
| "result_code (Read32Answer a) = PineRead32Answer.resultCode a"
| "result_code (Read64Answer a) = PineRead64Answer.resultCode a"
| "result_code (Write8Answer a) = PineWrite8Answer.resultCode a"
| "result_code (Write16Answer a) = PineWrite16Answer.resultCode a"
| "result_code (Write32Answer a) = PineWrite32Answer.resultCode a"
| "result_code (Write64Answer a) = PineWrite64Answer.resultCode a"
| "result_code (VersionAnswer a) = PineVersionAnswer.resultCode a"
| "result_code (SaveStateAnswer a) = PineSaveStateAnswer.resultCode a"
| "result_code (LoadStateAnswer a) = PineLoadStateAnswer.resultCode a"
| "result_code (TitleAnswer a) = PineTitleAnswer.resultCode a"
| "result_code (IDAnswer a) = PineIDAnswer.resultCode a"
| "result_code (UUIDAnswer a) = PineUUIDAnswer.resultCode a"
| "result_code (GameVersionAnswer a) = PineGameVersionAnswer.resultCode a"
| "result_code (StatusAnswer a) = PineStatusAnswer.resultCode a"

fun string_field :: "PineAnswer \<Rightarrow> string option" where
  "string_field (VersionAnswer a) = Some (PineVersionAnswer.version a)"
| "string_field (TitleAnswer a) = Some (PineTitleAnswer.title a)"
| "string_field (IDAnswer a) = Some (PineIDAnswer.id_string a)"
| "string_field (UUIDAnswer a) = Some (PineUUIDAnswer.uuid a)"
| "string_field (GameVersionAnswer a) = Some (PineGameVersionAnswer.gameVersion a)"
| "string_field _ = None"

text \<open>One trailing NUL, if present, stripped.\<close>

definition strip_NUL :: "string \<Rightarrow> string" where
  "strip_NUL s = (if s \<noteq> [] \<and> last s = CHR 0x00 then butlast s else s)"

text \<open>The bytes at offsets \<open>i\<close> up to \<open>j\<close> of the array behind a slice, as a string.\<close>

definition bytes_between :: "go_slice \<Rightarrow> nat \<Rightarrow> nat \<Rightarrow> string" where
  "bytes_between b i j = map (\<lambda>x. char_of (unat x)) (take (j - i) (drop i (elems b @ spare b)))"

text \<open>The text by which an error message names a length rule.\<close>

fun or_list :: "string list \<Rightarrow> string" where
  "or_list [] = ''''"
| "or_list [x] = x"
| "or_list (x # xs) = x @ '' or '' @ or_list xs"

fun rule_text :: "length_rule \<Rightarrow> string" where
  "rule_text (Exactly ns) = ''!= '' @ or_list (map decimal ns)"
| "rule_text (AtLeast m) = ''< '' @ decimal m"

text \<open>The type name an error message of a decoder carries.\<close>

fun message_subject :: "PineAnswer \<Rightarrow> string" where
  "message_subject (SaveStateAnswer _) = ''length of bytes for PineSaveStateAnswer ''"
| "message_subject (LoadStateAnswer _) = ''length of bytes for PineLoadStateAnswer ''"
| "message_subject a =
     (case length_rule_of a of
        Exactly _ \<Rightarrow> ''length of bytes for PineStatusAnswer ''
      | AtLeast _ \<Rightarrow> ''bytes for PineVersionAnswer '')"

text \<open>
  The directory of the socket file: the run-time directory variable of the platform
  (\<open>XDG_RUNTIME_DIR\<close> on linux, \<open>TMPDIR\<close> on darwin) when it is set and not empty,
  else \<open>/tmp\<close>.
\<close>

definition runtime_dir_variable :: "string \<Rightarrow> string option" where
  "runtime_dir_variable os =
     (if os = ''linux'' then Some ''XDG_RUNTIME_DIR''
      else if os = ''darwin'' then Some ''TMPDIR'' else None)"

definition socket_dir :: "go_env \<Rightarrow> string" where
  "socket_dir env =
     (case runtime_dir_variable (GOOS env) of
        Some v \<Rightarrow> (if Getenv env v \<noteq> [] then Getenv env v else ''/tmp'')
      | None \<Rightarrow> ''/tmp'')"

text \<open>A probe: resolve the target on the given slot, then open and close.\<close>

definition probe_ok :: "go_env \<Rightarrow> world \<Rightarrow> nat \<Rightarrow> string \<times> uint16 \<Rightarrow> bool" where
  "probe_ok env w r entry =
     (case NewPineConnection env (fst entry) (snd entry) of
        Inl _ \<Rightarrow> False
      | Inr c \<Rightarrow> snd (TestConnection w r c) = Done ())"

definition resolved :: "go_env \<Rightarrow> string \<times> uint16 \<Rightarrow> PineConnection option" where
  "resolved env entry =
     (case NewPineConnection env (fst entry) (snd entry) of Inl _ \<Rightarrow> None | Inr c \<Rightarrow> Some c)"

text \<open>The sleeps among the events of a run.\<close>

fun is_sleep :: "net_event \<Rightarrow> bool" where
  "is_sleep (Sleep_seconds _) = True"
| "is_sleep _ = False"

text \<open>An order in which a \<open>range\<close> statement may yield the entries of the map.\<close>

definition iteration_order :: "(string \<times> uint16) list \<Rightarrow> bool" where
  "iteration_order es = (distinct es \<and> set es = set defaultSlotForTargetMap_entries)"

section \<open>Encoding: results\<close>

lemma list_update_Cons_numeral: "(x # xs)[numeral n := y] = x # xs[pred_numeral n := y]"
  by (simp add: numeral_eq_Suc)

lemma replicate_numeral: "replicate (numeral n) x = x # replicate (pred_numeral n) x"
  by (simp add: numeral_eq_Suc)

lemmas put_defs =
  make_bytes_def set_index_def PutUint16_def PutUint32_def PutUint64_def and_then_def

lemmas toBytes_defs =
  PineRead8Request_toBytes_def PineRead16Request_toBytes_def PineRead32Request_toBytes_def
  PineRead64Request_toBytes_def PineWrite8Request_toBytes_def PineWrite16Request_toBytes_def
  PineWrite32Request_toBytes_def PineWrite64Request_toBytes_def PineVersionRequest_toBytes_def
  PineSaveStateRequest_toBytes_def PineLoadStateRequest_toBytes_def PineTitleRequest_toBytes_def
  PineIDRequest_toBytes_def PineUUIDRequest_toBytes_def PineGameVersionRequest_toBytes_def
  PineStatusRequest_toBytes_def

text \<open>
  C9. Encoding a read-32 request at address \<open>0x35459C\<close> gives exactly the nine bytes
  \<open>09 00 00 00 02 9C 45 35 00\<close>: the little-endian length 9, the opcode 2 and the
  little-endian address.
\<close>

theorem read32_request_scenario:
  "toBytes (Read32Request \<lparr>PineRead32Request.address = 0x35459C\<rparr>)
     = Done [0x09, 0x00, 0x00, 0x00, 0x02, 0x9C, 0x45, 0x35, 0x00]"
  by (simp add: PineRead32Request_toBytes_def put_defs replicate_numeral
        list_update_Cons_numeral)

text \<open>
  C3. For each of the sixteen request variants and every value of its fields, encoding
  returns normally with a nil error (\<open>Done\<close>), and the first four bytes of the output,
  read as a little-endian 32-bit integer (by \<open>binary.LittleEndian.Uint32\<close>, and byte
  by byte with the weights 1, 256, 65536 and 16777216), are the length of the output in
  bytes.
\<close>

theorem toBytes_length_prefix:
  "\<exists>bytes n. toBytes request = Done bytes \<and> Uint32 (slice_of bytes) = Done n
     \<and> unat n = length bytes
     \<and> unat (bytes ! 0) + 256 * unat (bytes ! 1) + 65536 * unat (bytes ! 2)
         + 16777216 * unat (bytes ! 3) = length bytes"
  by (cases request)
     (simp_all add: toBytes_defs put_defs Uint32_def slice_of_def len_def
        replicate_numeral list_update_Cons_numeral)

section \<open>Decoding: results\<close>

lemmas decode_defs =
  step_def pure_def logger_Error_def logger_Debug_def return_error_def return_nil_def
  wrap_def and_then_def index_def

lemmas read_defs = slice_from_def Uint16_def Uint32_def Uint64_def len_def

lemmas fromBytes_defs =
  PineRead8Answer_fromBytes_def PineRead16Answer_fromBytes_def PineRead32Answer_fromBytes_def
  PineRead64Answer_fromBytes_def PineWrite8Answer_fromBytes_def PineWrite16Answer_fromBytes_def
  PineWrite32Answer_fromBytes_def PineWrite64Answer_fromBytes_def PineVersionAnswer_fromBytes_def
  PineSaveStateAnswer_fromBytes_def PineLoadStateAnswer_fromBytes_def PineTitleAnswer_fromBytes_def
  PineIDAnswer_fromBytes_def PineUUIDAnswer_fromBytes_def PineGameVersionAnswer_fromBytes_def
  PineStatusAnswer_fromBytes_def

lemma slice_from_0: "slice_from s 0 = Done s"
  by (simp add: slice_from_def)



lemma Uint32_at_5: "9 \<le> len s \<Longrightarrow> \<exists>n. and_then (slice_from s 5) Uint32 = Done n"
  by (simp add: and_then_def slice_from_def Uint32_def len_def)

lemma unat_eq_iff_32:
  assumes "n < 2 ^ 32"
  shows "(unat (l::uint32) = n) = (l = of_nat n)"
proof
  assume "unat l = n"
  then show "l = of_nat n" by auto
next
  assume "l = of_nat n"
  then show "unat l = n" using assms by (simp add: unat_of_nat)
qed

lemma unat_9_plus:
  assumes "9 \<le> unat (9 + (n::uint32))"
  shows "unat (9 + n) = 9 + unat n"
proof -
  have "(9::uint32) \<le> 9 + n"
    using assms by (simp add: word_le_nat_alt)
  then have "unat (9 + n) = unat (9::uint32) + unat n"
    by (simp add: unat_plus_simple)
  then show ?thesis by simp
qed

lemma unat_9_plus_fits:
  assumes "9 + unat (n::uint32) < 2 ^ 32"
  shows "unat (9 + n) = 9 + unat n"
proof -
  have "unat (9::uint32) + unat n < 2 ^ LENGTH(32)"
    using assms by simp
  then have "unat (9 + n) = unat (9::uint32) + unat n"
    by (simp only: unat_add_lem)
  then show ?thesis by simp
qed


lemma rejected_error:
  "Uint32 bytes = Done l \<Longrightarrow> \<not> accepted (length_rule_of a) (unat l) \<Longrightarrow>
     snd (fromBytes a bytes) = Failed (message_subject a @ rule_text (length_rule_of a))"
  by (cases a)
     (simp_all add: fromBytes_defs decode_defs slice_from_0 unat_eq_iff_32 word_less_nat_alt
        decimal.simps)

lemma rejected_log:
  "Uint32 bytes = Done l \<Longrightarrow> \<not> accepted (length_rule_of a) (unat l) \<Longrightarrow>
     (case length_rule_of a of
        AtLeast _ \<Rightarrow> fst (fromBytes a bytes) = []
      | Exactly _ \<Rightarrow>
          (\<exists>text. fst (fromBytes a bytes) =
             [LogError text [(''length'', AttrUint32 l), (''bytes'', AttrHexDump (elems bytes))]]))"
  by (cases a)
     (simp_all add: fromBytes_defs decode_defs slice_from_0 unat_eq_iff_32 word_less_nat_alt)

lemma string_slice_ok:
  assumes "string_in_range bytes" and "and_then (slice_from bytes 5) Uint32 = Done n"
    and "n \<noteq> 0"
  shows "\<exists>b. slice_from_to bytes 9 (unat (9 + n)) = Done b"
  using assms by (auto simp: string_in_range_def slice_from_to_def unat_9_plus_fits)




text \<open>
  C2 at the well-formed five-byte failure answer \<open>05 00 00 00 FF\<close>. Its declared length
  5 is in the accepted set of every read, and each of the four read decoders passes its
  length check and then reads the value at offset 5, which the frame does not have: the
  call panics. The status decoder, whose value is optional in the same way, reads it
  only when the declared length is 9, and decodes the same frame.
\<close>

theorem read_answer_of_length_5_panics:
  "snd (fromBytes (Read8Answer \<lparr>PineRead8Answer.resultCode = 0, memoryValue = 0\<rparr>)
         (slice_of [0x05, 0x00, 0x00, 0x00, 0xFF])) = Panic
   \<and> snd (fromBytes (Read16Answer \<lparr>PineRead16Answer.resultCode = 0, memoryValue = 0\<rparr>)
         (slice_of [0x05, 0x00, 0x00, 0x00, 0xFF])) = Panic
   \<and> snd (fromBytes (Read32Answer \<lparr>PineRead32Answer.resultCode = 0, memoryValue = 0\<rparr>)
         (slice_of [0x05, 0x00, 0x00, 0x00, 0xFF])) = Panic
   \<and> snd (fromBytes (Read64Answer \<lparr>PineRead64Answer.resultCode = 0, memoryValue = 0\<rparr>)
         (slice_of [0x05, 0x00, 0x00, 0x00, 0xFF])) = Panic
   \<and> snd (fromBytes (StatusAnswer \<lparr>PineStatusAnswer.resultCode = 0, status = 0\<rparr>)
         (slice_of [0x05, 0x00, 0x00, 0x00, 0xFF]))
       = Done (StatusAnswer \<lparr>PineStatusAnswer.resultCode = 0xFF, status = 0\<rparr>)"
  by (simp add: fromBytes_defs decode_defs read_defs slice_of_def)

text \<open>
  C7, as the code has it. For every answer frame of at least four bytes whose declared
  length is outside the accepted set of the operation, the returned error is a message
  fixed by the decoder, which names the expected lengths (\<open>!= 5\<close>, \<open>!= 5 or 6\<close>, ...,
  \<open>< 10\<close>) and nothing of the frame. The fixed-length decoders (reads, writes,
  save-state, load-state, status) write the declared length and the raw bytes to the
  error log instead, in one call before they return; the string decoders log nothing.
\<close>

theorem rejection_message_and_log:
  "Uint32 bytes = Done l \<Longrightarrow> \<not> accepted (length_rule_of a) (unat l) \<Longrightarrow>
     snd (fromBytes a bytes) = Failed (message_subject a @ rule_text (length_rule_of a))
     \<and> (case length_rule_of a of
          AtLeast _ \<Rightarrow> fst (fromBytes a bytes) = []
        | Exactly _ \<Rightarrow>
            (\<exists>text. fst (fromBytes a bytes) =
               [LogError text
                  [(''length'', AttrUint32 l), (''bytes'', AttrHexDump (elems bytes))]]))"
  using rejected_error[of bytes l a] rejected_log[of bytes l a] by simp

theorem rejection_message_and_log_witness:
  "Uint32 (slice_of [0x07, 0x00, 0x00, 0x00, 0x00, 0x45, 0x46]) = Done 7
   \<and> \<not> accepted (length_rule_of (Read8Answer \<lparr>PineRead8Answer.resultCode = 0, memoryValue = 0\<rparr>))
         (unat (7::uint32))
   \<and> snd (fromBytes (Read8Answer \<lparr>PineRead8Answer.resultCode = 0, memoryValue = 0\<rparr>)
           (slice_of [0x07, 0x00, 0x00, 0x00, 0x00, 0x45, 0x46]))
       = Failed ''length of bytes for PineStatusAnswer != 5 or 6''"
proof -
  let ?r = "Read8Answer \<lparr>PineRead8Answer.resultCode = 0, memoryValue = 0\<rparr>"
  let ?b = "slice_of [0x07, 0x00, 0x00, 0x00, 0x00, 0x45, 0x46]"
  have h1: "Uint32 ?b = Done 7"
    by (simp add: Uint32_def len_def slice_of_def)
  have h2: "\<not> accepted (length_rule_of ?r) (unat (7::uint32))"
    by simp
  have "snd (fromBytes ?r ?b) = Failed (message_subject ?r @ rule_text (length_rule_of ?r))"
    using rejection_message_and_log[OF h1 h2] by (rule conjunct1)
  then have "snd (fromBytes ?r ?b) = Failed ''length of bytes for PineStatusAnswer != 5 or 6''"
    by (simp add: decimal.simps)
  with h1 h2 show ?thesis by blast
qed

text \<open>
  C7 as stated fails: two different rejected read-8 frames get the same error value,
  which therefore holds the bytes of neither.
\<close>

theorem rejection_error_counterexample:
  "slice_of [0x07, 0x00, 0x00, 0x00, 0x00, 0x45, 0x46] \<noteq> slice_of [0x08, 0x00, 0x00, 0x00, 0xFF]
   \<and> snd (fromBytes (Read8Answer \<lparr>PineRead8Answer.resultCode = 0, memoryValue = 0\<rparr>)
           (slice_of [0x07, 0x00, 0x00, 0x00, 0x00, 0x45, 0x46]))
       = Failed ''length of bytes for PineStatusAnswer != 5 or 6''
   \<and> snd (fromBytes (Read8Answer \<lparr>PineRead8Answer.resultCode = 0, memoryValue = 0\<rparr>)
           (slice_of [0x08, 0x00, 0x00, 0x00, 0xFF]))
       = Failed ''length of bytes for PineStatusAnswer != 5 or 6''"
  by (simp add: fromBytes_defs decode_defs read_defs slice_of_def)

lemma and_then_Done: "and_then (Done x) f = f x"
  by (simp add: and_then_def)

lemma step_pure: "step (pure r) f = (case r of Panic \<Rightarrow> ([], Panic) | Failed e \<Rightarrow> ([], Failed e) | Done x \<Rightarrow> f x)"
  by (cases r) (simp_all add: step_def pure_def split: prod.split)

lemma step_log: "step (logger_Debug m as) f = (case f () of (ls, r) \<Rightarrow> (LogDebug m as # ls, r))"
  by (simp add: step_def logger_Debug_def)

lemma step_return_nil: "step (return_nil x) f = f x"
  by (simp add: step_def return_nil_def split: prod.split)

lemma step_return_error: "step (return_error e) f = return_error e"
  by (simp add: step_def return_error_def)

lemma step_Panic: "step (ls, Panic) f = (ls, Panic)"
  by (simp add: step_def)

lemma step_Failed: "step (ls, Failed e) f = (ls, Failed e)"
  by (simp add: step_def)

lemma step_Done: "step (ls, Done x) f = (ls @ fst (f x), snd (f x))"
  by (simp add: step_def split: prod.split)

lemma step_assoc_like:
  "step (case r of Panic \<Rightarrow> ([], Panic) | Failed e \<Rightarrow> ([], Failed e) | Done x \<Rightarrow> g x) f
   = (case r of Panic \<Rightarrow> ([], Panic) | Failed e \<Rightarrow> ([], Failed e) | Done x \<Rightarrow> step (g x) f)"
  by (cases r) (simp_all add: step_Panic step_Failed)

lemma Version_core:
  "PineVersionAnswer_fromBytes x bytes =
     step (string_answer_core bytes) (\<lambda>(c, s).
       return_nil (x\<lparr>PineVersionAnswer.resultCode := c, PineVersionAnswer.version := s\<rparr>))"
  unfolding PineVersionAnswer_fromBytes_def string_answer_core_def
  by (simp add: step_pure step_log step_return_nil step_return_error
        step_Panic step_Failed step_Done return_nil_def return_error_def
      split: outcome.split prod.split)

lemma Title_core:
  "PineTitleAnswer_fromBytes x bytes =
     step (string_answer_core bytes) (\<lambda>(c, s).
       return_nil (x\<lparr>PineTitleAnswer.resultCode := c, PineTitleAnswer.title := s\<rparr>))"
  unfolding PineTitleAnswer_fromBytes_def string_answer_core_def
  by (simp add: step_pure step_log step_return_nil step_return_error
        step_Panic step_Failed step_Done return_nil_def return_error_def
      split: outcome.split prod.split)

lemma ID_core:
  "PineIDAnswer_fromBytes x bytes =
     step (string_answer_core bytes) (\<lambda>(c, s).
       return_nil (x\<lparr>PineIDAnswer.resultCode := c, PineIDAnswer.id_string := s\<rparr>))"
  unfolding PineIDAnswer_fromBytes_def string_answer_core_def
  by (simp add: step_pure step_log step_return_nil step_return_error
        step_Panic step_Failed step_Done return_nil_def return_error_def
      split: outcome.split prod.split)

lemma UUID_core:
  "PineUUIDAnswer_fromBytes x bytes =
     step (string_answer_core bytes) (\<lambda>(c, s).
       return_nil (x\<lparr>PineUUIDAnswer.resultCode := c, PineUUIDAnswer.uuid := s\<rparr>))"
  unfolding PineUUIDAnswer_fromBytes_def string_answer_core_def
  by (simp add: step_pure step_log step_return_nil step_return_error
        step_Panic step_Failed step_Done return_nil_def return_error_def
      split: outcome.split prod.split)

lemma GameVersion_core:
  "PineGameVersionAnswer_fromBytes x bytes =
     step (string_answer_core bytes) (\<lambda>(c, s).
       return_nil (x\<lparr>PineGameVersionAnswer.resultCode := c, PineGameVersionAnswer.gameVersion := s\<rparr>))"
  unfolding PineGameVersionAnswer_fromBytes_def string_answer_core_def
  by (simp add: step_pure step_log step_return_nil step_return_error
        step_Panic step_Failed step_Done return_nil_def return_error_def
      split: outcome.split prod.split)


lemma CutSuffix_NUL: "fst (CutSuffix s NUL) = strip_NUL s"
proof (cases "s = []")
  case True
  then show ?thesis by (simp add: CutSuffix_def NUL_def strip_NUL_def)
next
  case False
  then have "suffix [CHR 0x00] s = (last s = CHR 0x00)"
    by (metis append_butlast_last_id last_snoc suffix_def)
  with False show ?thesis
    by (simp add: CutSuffix_def NUL_def strip_NUL_def butlast_conv_take)
qed

lemma index_Done: "index s i = Done c \<Longrightarrow> i < len s \<and> c = elems s ! i"
  by (auto simp: index_def split: if_splits)

lemma string_slice_value:
  assumes "slice_from_to bytes 9 (unat (9 + (n::uint32))) = Done b"
  shows "string_of_bytes b = bytes_between bytes 9 (9 + unat n)"
proof -
  have le: "9 \<le> unat (9 + n)"
    using assms by (auto simp: slice_from_to_def split: if_splits)
  have "elems b = take (unat (9 + n) - 9) (drop 9 (elems bytes @ spare bytes))"
    using assms by (auto simp: slice_from_to_def split: if_splits)
  then show ?thesis
    by (simp add: unat_9_plus[OF le] string_of_bytes_def bytes_between_def)
qed

lemma core_Done:
  assumes "snd (string_answer_core bytes) = Done (c, s)"
  shows "\<exists>l n. Uint32 bytes = Done l \<and> 10 \<le> unat l \<and> 4 < len bytes \<and> c = elems bytes ! 4
           \<and> and_then (slice_from bytes 5) Uint32 = Done n
           \<and> s = strip_NUL (bytes_between bytes 9 (9 + unat n))"
proof (cases "Uint32 bytes")
  case Panic
  with assms show ?thesis
    by (simp add: string_answer_core_def slice_from_0 and_then_Done step_pure)
next
  case (Failed e)
  with assms show ?thesis
    by (simp add: string_answer_core_def slice_from_0 and_then_Done step_pure)
next
  case (Done l)
  show ?thesis
  proof (cases "l < 10")
    case True
    with assms Done show ?thesis
      by (simp add: string_answer_core_def slice_from_0 and_then_Done step_pure return_error_def)
  next
    case False
    then have l10: "10 \<le> unat l"
      by (simp add: word_less_nat_alt)
    let ?rest = "\<lambda>b4. step (pure (and_then (slice_from bytes 5) Uint32)) (\<lambda>n.
         if n > 0 then
           step (pure (slice_from_to bytes 9 (unat (9 + n)))) (\<lambda>b.
           return_nil (b4, fst (CutSuffix (string_of_bytes b) NUL)))
         else return_nil (b4, []))"
    have eq: "snd (string_answer_core bytes) = snd (step (pure (index bytes 4)) ?rest)"
      using Done False
      by (simp add: string_answer_core_def slice_from_0 and_then_Done step_pure step_log
            split: prod.split)
    show ?thesis
    proof (cases "index bytes 4")
      case Panic
      with assms eq show ?thesis by (simp add: step_pure)
    next
      case (Failed e)
      with assms eq show ?thesis by (simp add: step_pure)
    next
      case b4: (Done b4)
      then have i4: "4 < len bytes \<and> b4 = elems bytes ! 4"
        by (rule index_Done)
      show ?thesis
      proof (cases "and_then (slice_from bytes 5) Uint32")
        case Panic
        with assms eq b4 show ?thesis by (simp add: step_pure)
      next
        case (Failed e)
        with assms eq b4 show ?thesis by (simp add: step_pure)
      next
        case n: (Done n)
        show ?thesis
        proof (cases "n > 0")
          case False
          then have "n = 0" by (simp add: word_gt_0)
          with assms eq b4 n have "c = b4 \<and> s = []"
            by (simp add: step_pure return_nil_def)
          with Done l10 i4 n \<open>n = 0\<close> show ?thesis
            by (simp add: bytes_between_def strip_NUL_def)
        next
          case True
          show ?thesis
          proof (cases "slice_from_to bytes 9 (unat (9 + n))")
            case Panic
            with assms eq b4 n True show ?thesis by (simp add: step_pure)
          next
            case (Failed e)
            with assms eq b4 n True show ?thesis by (simp add: step_pure)
          next
            case b: (Done b)
            with assms eq b4 n True
            have "c = b4 \<and> s = fst (CutSuffix (string_of_bytes b) NUL)"
              by (simp add: step_pure return_nil_def)
            then have "c = b4 \<and> s = strip_NUL (bytes_between bytes 9 (9 + unat n))"
              by (simp add: CutSuffix_NUL string_slice_value[OF b])
            with Done l10 i4 n show ?thesis by simp
          qed
        qed
      qed
    qed
  qed
qed

lemma core_ok:
  assumes l: "Uint32 bytes = Done l" and l10: "10 \<le> unat l" and len9: "9 \<le> len bytes"
    and rng: "string_in_range bytes"
  shows "\<exists>c s. snd (string_answer_core bytes) = Done (c, s)"
proof -
  obtain n where n: "and_then (slice_from bytes 5) Uint32 = Done n"
    using Uint32_at_5[OF len9] by auto
  have b: "n \<noteq> 0 \<Longrightarrow> \<exists>b. slice_from_to bytes 9 (unat (9 + n)) = Done b"
    using string_slice_ok[OF rng n] by simp
  have i: "index bytes 4 = Done (elems bytes ! 4)"
    using len9 by (simp add: index_def)
  have nl: "\<not> l < 10"
    using l10 by (simp add: word_less_nat_alt)
  show ?thesis
  proof (cases "n = 0")
    case True
    with l nl n i show ?thesis
      by (simp add: string_answer_core_def slice_from_0 and_then_Done step_pure step_log
            return_nil_def split: prod.split)
  next
    case False
    then obtain b' where "slice_from_to bytes 9 (unat (9 + n)) = Done b'"
      using b by auto
    with False l nl n i show ?thesis
      by (simp add: string_answer_core_def slice_from_0 and_then_Done step_pure step_log
            return_nil_def word_gt_0 split: prod.split)
  qed
qed

lemma wrap_core_Done:
  "(snd (wrap C (step m (\<lambda>(c, s). return_nil (g c s)))) = Done a')
     = (\<exists>c s. snd m = Done (c, s) \<and> a' = C (g c s))"
proof (cases m)
  case (Pair ls r)
  then show ?thesis
    by (cases r) (auto simp: wrap_def step_def return_nil_def)
qed

lemma through_core:
  assumes eq: "fromBytes a bytes
      = wrap C (step (string_answer_core bytes) (\<lambda>(c, s). return_nil (g c s)))"
    and rc: "\<And>c s. result_code (C (g c s)) = c"
    and sf: "\<And>c s. string_field (C (g c s)) = Some s"
  shows "(\<forall>a'. snd (fromBytes a bytes) = Done a' \<longrightarrow>
         (\<exists>l n. Uint32 bytes = Done l \<and> 10 \<le> unat l
            \<and> and_then (slice_from bytes 5) Uint32 = Done n
            \<and> result_code a' = elems bytes ! 4
            \<and> string_field a' = Some (strip_NUL (bytes_between bytes 9 (9 + unat n)))
            \<and> (n = 0 \<longrightarrow> string_field a' = Some [])))
      \<and> (\<forall>l. Uint32 bytes = Done l \<and> 10 \<le> unat l \<and> 9 \<le> len bytes
               \<and> string_in_range bytes
            \<longrightarrow> (\<exists>a'. snd (fromBytes a bytes) = Done a'))"
proof (intro conjI impI allI)
  fix a'
  assume res: "snd (fromBytes a bytes) = Done a'"
  obtain c s where cs: "snd (string_answer_core bytes) = Done (c, s)" "a' = C (g c s)"
    using res eq wrap_core_Done[of C "string_answer_core bytes" g a'] by auto
  obtain l n where ln: "Uint32 bytes = Done l" "10 \<le> unat l" "c = elems bytes ! 4"
      "and_then (slice_from bytes 5) Uint32 = Done n"
      "s = strip_NUL (bytes_between bytes 9 (9 + unat n))"
    using core_Done[OF cs(1)] by blast
  have "n = 0 \<longrightarrow> s = []"
    using ln(5) by (simp add: bytes_between_def strip_NUL_def)
  with ln cs(2) rc sf
  show "\<exists>l n. Uint32 bytes = Done l \<and> 10 \<le> unat l
            \<and> and_then (slice_from bytes 5) Uint32 = Done n
            \<and> result_code a' = elems bytes ! 4
            \<and> string_field a' = Some (strip_NUL (bytes_between bytes 9 (9 + unat n)))
            \<and> (n = 0 \<longrightarrow> string_field a' = Some [])"
    by auto
next
  fix l
  assume h: "Uint32 bytes = Done l \<and> 10 \<le> unat l \<and> 9 \<le> len bytes \<and> string_in_range bytes"
  obtain c s where "snd (string_answer_core bytes) = Done (c, s)"
    using core_ok[of bytes l] h by blast
  then have "snd (fromBytes a bytes) = Done (C (g c s))"
    using eq wrap_core_Done[of C "string_answer_core bytes" g "C (g c s)"] by auto
  then show "\<exists>a'. snd (fromBytes a bytes) = Done a'" by blast
qed

lemma string_answer_general:
  assumes "string_field a \<noteq> None"
  shows "(\<forall>a'. snd (fromBytes a bytes) = Done a' \<longrightarrow>
         (\<exists>l n. Uint32 bytes = Done l \<and> 10 \<le> unat l
            \<and> and_then (slice_from bytes 5) Uint32 = Done n
            \<and> result_code a' = elems bytes ! 4
            \<and> string_field a' = Some (strip_NUL (bytes_between bytes 9 (9 + unat n)))
            \<and> (n = 0 \<longrightarrow> string_field a' = Some [])))
      \<and> (\<forall>l. Uint32 bytes = Done l \<and> 10 \<le> unat l \<and> 9 \<le> len bytes
               \<and> string_in_range bytes
            \<longrightarrow> (\<exists>a'. snd (fromBytes a bytes) = Done a'))"
proof (cases a)
  case (VersionAnswer x)
  show ?thesis
    by (rule through_core[where C = VersionAnswer
          and g = "\<lambda>c s. x\<lparr>PineVersionAnswer.resultCode := c, PineVersionAnswer.version := s\<rparr>"])
       (simp_all add: VersionAnswer Version_core)
next
  case (TitleAnswer x)
  show ?thesis
    by (rule through_core[where C = TitleAnswer
          and g = "\<lambda>c s. x\<lparr>PineTitleAnswer.resultCode := c, PineTitleAnswer.title := s\<rparr>"])
       (simp_all add: TitleAnswer Title_core)
next
  case (IDAnswer x)
  show ?thesis
    by (rule through_core[where C = IDAnswer
          and g = "\<lambda>c s. x\<lparr>PineIDAnswer.resultCode := c, PineIDAnswer.id_string := s\<rparr>"])
       (simp_all add: IDAnswer ID_core)
next
  case (UUIDAnswer x)
  show ?thesis
    by (rule through_core[where C = UUIDAnswer
          and g = "\<lambda>c s. x\<lparr>PineUUIDAnswer.resultCode := c, PineUUIDAnswer.uuid := s\<rparr>"])
       (simp_all add: UUIDAnswer UUID_core)
next
  case (GameVersionAnswer x)
  show ?thesis
    by (rule through_core[where C = GameVersionAnswer
          and g = "\<lambda>c s. x\<lparr>PineGameVersionAnswer.resultCode := c,
                         PineGameVersionAnswer.gameVersion := s\<rparr>"])
       (simp_all add: GameVersionAnswer GameVersion_core)
qed (use assms in simp_all)

text \<open>
  C4. For each of the five string answers (version, title, id, uuid, game version):
  whenever decoding returns an answer, the declared total length is at least 10, the
  result code is the byte at offset 4, and the string is the bytes at offsets 9 up to
  \<open>9 + n\<close>, \<open>n\<close> being the little-endian 32-bit value at offset 5, with one
  trailing NUL stripped if present, so that \<open>n = 0\<close> gives the empty string; and
  decoding does return an answer when the declared length is at least 10, the nine
  header bytes are there and the string lies inside the array behind the slice. In
  particular the 13-byte version answer with string length 4 and string bytes
  \<open>1.2\<close> and NUL decodes to the version \<open>1.2\<close>.
\<close>

theorem string_answer_decoding:
  "(string_field a \<noteq> None \<longrightarrow>
      (\<forall>a'. snd (fromBytes a bytes) = Done a' \<longrightarrow>
         (\<exists>l n. Uint32 bytes = Done l \<and> 10 \<le> unat l
            \<and> and_then (slice_from bytes 5) Uint32 = Done n
            \<and> result_code a' = elems bytes ! 4
            \<and> string_field a' = Some (strip_NUL (bytes_between bytes 9 (9 + unat n)))
            \<and> (n = 0 \<longrightarrow> string_field a' = Some [])))
      \<and> (\<forall>l. Uint32 bytes = Done l \<and> 10 \<le> unat l \<and> 9 \<le> len bytes
               \<and> string_in_range bytes
            \<longrightarrow> (\<exists>a'. snd (fromBytes a bytes) = Done a')))
   \<and> snd (fromBytes (VersionAnswer \<lparr>PineVersionAnswer.resultCode = 0, version = []\<rparr>)
           (slice_of [0x0D, 0x00, 0x00, 0x00, 0x00, 0x04, 0x00, 0x00, 0x00,
                      0x31, 0x2E, 0x32, 0x00]))
       = Done (VersionAnswer \<lparr>PineVersionAnswer.resultCode = 0, version = ''1.2''\<rparr>)"
proof (rule conjI)
  show "string_field a \<noteq> None \<longrightarrow>
      (\<forall>a'. snd (fromBytes a bytes) = Done a' \<longrightarrow>
         (\<exists>l n. Uint32 bytes = Done l \<and> 10 \<le> unat l
            \<and> and_then (slice_from bytes 5) Uint32 = Done n
            \<and> result_code a' = elems bytes ! 4
            \<and> string_field a' = Some (strip_NUL (bytes_between bytes 9 (9 + unat n)))
            \<and> (n = 0 \<longrightarrow> string_field a' = Some [])))
      \<and> (\<forall>l. Uint32 bytes = Done l \<and> 10 \<le> unat l \<and> 9 \<le> len bytes
               \<and> string_in_range bytes
            \<longrightarrow> (\<exists>a'. snd (fromBytes a bytes) = Done a'))"
    using string_answer_general[of a bytes] by blast
next
  show "snd (fromBytes (VersionAnswer \<lparr>PineVersionAnswer.resultCode = 0, version = []\<rparr>)
           (slice_of [0x0D, 0x00, 0x00, 0x00, 0x00, 0x04, 0x00, 0x00, 0x00,
                      0x31, 0x2E, 0x32, 0x00]))
       = Done (VersionAnswer \<lparr>PineVersionAnswer.resultCode = 0, version = ''1.2''\<rparr>)"
    by code_simp
qed

theorem string_answer_decoding_witness:
  "string_field (VersionAnswer \<lparr>PineVersionAnswer.resultCode = 0, version = []\<rparr>) \<noteq> None
   \<and> Uint32 (slice_of [0x0D, 0x00, 0x00, 0x00, 0x00, 0x04, 0x00, 0x00, 0x00,
                        0x31, 0x2E, 0x32, 0x00]) = Done 13
   \<and> (\<exists>a'. snd (fromBytes (VersionAnswer \<lparr>PineVersionAnswer.resultCode = 0, version = []\<rparr>)
                 (slice_of [0x0D, 0x00, 0x00, 0x00, 0x00, 0x04, 0x00, 0x00, 0x00,
                            0x31, 0x2E, 0x32, 0x00])) = Done a'
          \<and> result_code a' = 0 \<and> string_field a' = Some ''1.2'')"
proof -
  let ?v = "VersionAnswer \<lparr>PineVersionAnswer.resultCode = 0, version = []\<rparr>"
  let ?b = "slice_of [0x0D, 0x00, 0x00, 0x00, 0x00, 0x04, 0x00, 0x00, 0x00,
                      0x31, 0x2E, 0x32, 0x00]"
  have h1: "string_field ?v \<noteq> None"
    by simp
  have h2: "Uint32 ?b = Done 13"
    by (simp add: Uint32_def len_def slice_of_def)
  have h3: "10 \<le> unat (13::uint32) \<and> 9 \<le> len ?b"
    by (simp add: len_def slice_of_def)
  have n4: "and_then (slice_from ?b 5) Uint32 = Done 4"
    by (simp add: and_then_def slice_from_def Uint32_def len_def slice_of_def)
  have h4: "string_in_range ?b"
    unfolding string_in_range_def n4 by (simp add: cap_def slice_of_def)
  have val: "strip_NUL (bytes_between ?b 9 (9 + unat (4::uint32))) = ''1.2''"
    by code_simp
  have rc: "elems ?b ! 4 = 0"
    by (simp add: slice_of_def)
  note T = string_answer_decoding[of ?v ?b, THEN conjunct1, THEN mp, OF h1]
  from T h2 h3 h4 obtain a' where a': "snd (fromBytes ?v ?b) = Done a'"
    by blast
  from T a' obtain l n where ln: "and_then (slice_from ?b 5) Uint32 = Done n"
      "result_code a' = elems ?b ! 4"
      "string_field a' = Some (strip_NUL (bytes_between ?b 9 (9 + unat n)))"
    by blast
  from ln(1) n4 have "n = 4" by simp
  with ln val rc have "result_code a' = 0 \<and> string_field a' = Some ''1.2''"
    by simp
  with h1 h2 a' show ?thesis by blast
qed


text \<open>
  The rest of C2, on frames whose size is their declared length. A fixed-length frame
  with a length outside the accepted set is refused with an error (\<open>rejected_error\<close>
  above); a frame of the full accepted length decodes, in all eleven fixed-length
  decoders; the five-byte status frame decodes and leaves the status value as it was;
  only the five-byte frame of the four reads, accepted by their length check, panics.
\<close>

lemmas seq_simps = step_pure step_log step_return_nil step_return_error return_nil_def
  return_error_def slice_from_0 and_then_Done wrap_def step_Done step_Panic step_Failed

lemma Uint16_at_5: "7 \<le> len s \<Longrightarrow> \<exists>n. and_then (slice_from s 5) Uint16 = Done n"
  by (simp add: and_then_def slice_from_def Uint16_def len_def)

lemma Uint64_at_5: "13 \<le> len s \<Longrightarrow> \<exists>n. and_then (slice_from s 5) Uint64 = Done n"
  by (simp add: and_then_def slice_from_def Uint64_def len_def)

lemma index_in: "i < len s \<Longrightarrow> index s i = Done (elems s ! i)"
  by (simp add: index_def)

lemma index_out: "len s \<le> i \<Longrightarrow> index s i = Panic"
  by (simp add: index_def)

lemma read_past_end:
  "len s = 5 \<Longrightarrow> and_then (slice_from s 5) Uint16 = Panic"
  "len s = 5 \<Longrightarrow> and_then (slice_from s 5) Uint32 = Panic"
  "len s = 5 \<Longrightarrow> and_then (slice_from s 5) Uint64 = Panic"
  by (simp_all add: and_then_def slice_from_def Uint16_def Uint32_def Uint64_def len_def)

lemma full_frame_decodes:
  assumes u: "Uint32 bytes = Done l" and wf: "len bytes = unat l"
    and full: "unat l = full_layout a" and fixed: "length_rule_of a = Exactly ns"
  shows "\<exists>a'. snd (fromBytes a bytes) = Done a' \<and> result_code a' = elems bytes ! 4"
proof (cases a)
  case (Read8Answer x)
  with full have "unat l = 6" by simp
  then have l: "l = 6" and n: "len bytes = 6"
    using wf by (simp_all add: unat_eq_iff_32)
  have i: "index bytes 4 = Done (elems bytes ! 4)"
    using n by (simp add: index_in)
  have v: "index bytes 5 = Done (elems bytes ! 5)"
    using n by (simp add: index_in)
  show ?thesis
    using u l i v
    by (simp add: Read8Answer PineRead8Answer_fromBytes_def seq_simps split: prod.split)
next
  case (Read16Answer x)
  with full have "unat l = 7" by simp
  then have l: "l = 7" and n: "len bytes = 7"
    using wf by (simp_all add: unat_eq_iff_32)
  have i: "index bytes 4 = Done (elems bytes ! 4)"
    using n by (simp add: index_in)
  obtain v where v: "and_then (slice_from bytes 5) Uint16 = Done v"
    using Uint16_at_5[of bytes] n by auto
  show ?thesis
    using u l i v
    by (simp add: Read16Answer PineRead16Answer_fromBytes_def seq_simps split: prod.split)
next
  case (Read32Answer x)
  with full have "unat l = 9" by simp
  then have l: "l = 9" and n: "len bytes = 9"
    using wf by (simp_all add: unat_eq_iff_32)
  have i: "index bytes 4 = Done (elems bytes ! 4)"
    using n by (simp add: index_in)
  obtain v where v: "and_then (slice_from bytes 5) Uint32 = Done v"
    using Uint32_at_5[of bytes] n by auto
  show ?thesis
    using u l i v
    by (simp add: Read32Answer PineRead32Answer_fromBytes_def seq_simps split: prod.split)
next
  case (Read64Answer x)
  with full have "unat l = 13" by simp
  then have l: "l = 13" and n: "len bytes = 13"
    using wf by (simp_all add: unat_eq_iff_32)
  have i: "index bytes 4 = Done (elems bytes ! 4)"
    using n by (simp add: index_in)
  obtain v where v: "and_then (slice_from bytes 5) Uint64 = Done v"
    using Uint64_at_5[of bytes] n by auto
  show ?thesis
    using u l i v
    by (simp add: Read64Answer PineRead64Answer_fromBytes_def seq_simps split: prod.split)
next
  case (Write8Answer x)
  with full have "unat l = 5" by simp
  then have l: "l = 5" and n: "len bytes = 5"
    using wf by (simp_all add: unat_eq_iff_32)
  have i: "index bytes 4 = Done (elems bytes ! 4)"
    using n by (simp add: index_in)
  show ?thesis
    using u l i
    by (simp add: Write8Answer PineWrite8Answer_fromBytes_def seq_simps split: prod.split)
next
  case (Write16Answer x)
  with full have "unat l = 5" by simp
  then have l: "l = 5" and n: "len bytes = 5"
    using wf by (simp_all add: unat_eq_iff_32)
  have i: "index bytes 4 = Done (elems bytes ! 4)"
    using n by (simp add: index_in)
  show ?thesis
    using u l i
    by (simp add: Write16Answer PineWrite16Answer_fromBytes_def seq_simps split: prod.split)
next
  case (Write32Answer x)
  with full have "unat l = 5" by simp
  then have l: "l = 5" and n: "len bytes = 5"
    using wf by (simp_all add: unat_eq_iff_32)
  have i: "index bytes 4 = Done (elems bytes ! 4)"
    using n by (simp add: index_in)
  show ?thesis
    using u l i
    by (simp add: Write32Answer PineWrite32Answer_fromBytes_def seq_simps split: prod.split)
next
  case (Write64Answer x)
  with full have "unat l = 5" by simp
  then have l: "l = 5" and n: "len bytes = 5"
    using wf by (simp_all add: unat_eq_iff_32)
  have i: "index bytes 4 = Done (elems bytes ! 4)"
    using n by (simp add: index_in)
  show ?thesis
    using u l i
    by (simp add: Write64Answer PineWrite64Answer_fromBytes_def seq_simps split: prod.split)
next
  case (SaveStateAnswer x)
  with full have "unat l = 5" by simp
  then have l: "l = 5" and n: "len bytes = 5"
    using wf by (simp_all add: unat_eq_iff_32)
  have i: "index bytes 4 = Done (elems bytes ! 4)"
    using n by (simp add: index_in)
  show ?thesis
    using u l i
    by (simp add: SaveStateAnswer PineSaveStateAnswer_fromBytes_def seq_simps split: prod.split)
next
  case (LoadStateAnswer x)
  with full have "unat l = 5" by simp
  then have l: "l = 5" and n: "len bytes = 5"
    using wf by (simp_all add: unat_eq_iff_32)
  have i: "index bytes 4 = Done (elems bytes ! 4)"
    using n by (simp add: index_in)
  show ?thesis
    using u l i
    by (simp add: LoadStateAnswer PineLoadStateAnswer_fromBytes_def seq_simps split: prod.split)
next
  case (StatusAnswer x)
  with full have "unat l = 9" by simp
  then have l: "l = 9" and n: "len bytes = 9"
    using wf by (simp_all add: unat_eq_iff_32)
  have i: "index bytes 4 = Done (elems bytes ! 4)"
    using n by (simp add: index_in)
  obtain v where v: "and_then (slice_from bytes 5) Uint32 = Done v"
    using Uint32_at_5[of bytes] n by auto
  show ?thesis
    using u l i v
    by (simp add: StatusAnswer PineStatusAnswer_fromBytes_def seq_simps split: prod.split)
qed (use fixed in simp_all)

lemma short_read_frame_panics:
  assumes u: "Uint32 bytes = Done 5" and wf: "len bytes = 5"
  shows "snd (fromBytes (Read8Answer x8) bytes) = Panic"
    and "snd (fromBytes (Read16Answer x16) bytes) = Panic"
    and "snd (fromBytes (Read32Answer x32) bytes) = Panic"
    and "snd (fromBytes (Read64Answer x64) bytes) = Panic"
proof -
  have i: "index bytes 4 = Done (elems bytes ! 4)" "index bytes 5 = Panic"
    using wf by (simp_all add: index_in index_out)
  note r = read_past_end[OF wf]
  show "snd (fromBytes (Read8Answer x8) bytes) = Panic"
    using u i by (simp add: PineRead8Answer_fromBytes_def seq_simps split: prod.split)
  show "snd (fromBytes (Read16Answer x16) bytes) = Panic"
    using u i r by (simp add: PineRead16Answer_fromBytes_def seq_simps split: prod.split)
  show "snd (fromBytes (Read32Answer x32) bytes) = Panic"
    using u i r by (simp add: PineRead32Answer_fromBytes_def seq_simps split: prod.split)
  show "snd (fromBytes (Read64Answer x64) bytes) = Panic"
    using u i r by (simp add: PineRead64Answer_fromBytes_def seq_simps split: prod.split)
qed

lemma short_status_frame_decodes:
  assumes u: "Uint32 bytes = Done 5" and wf: "len bytes = 5"
  shows "snd (fromBytes (StatusAnswer x) bytes)
    = Done (StatusAnswer (x\<lparr>PineStatusAnswer.resultCode := elems bytes ! 4\<rparr>))"
proof -
  have i: "index bytes 4 = Done (elems bytes ! 4)"
    using wf by (simp add: index_in)
  show ?thesis
    using u i by (simp add: PineStatusAnswer_fromBytes_def seq_simps split: prod.split)
qed
















section \<open>Transport resolution and connecting: results\<close>

lemma last_index_from_found:
  assumes "i \<le> k" and "prefix substr (drop i s)"
    and "\<And>j. i < j \<Longrightarrow> j \<le> k \<Longrightarrow> \<not> prefix substr (drop j s)"
  shows "last_index_from k s substr = int i"
  using assms
proof (induction k)
  case 0
  then show ?case by simp
next
  case (Suc k)
  show ?case
  proof (cases "i = Suc k")
    case True
    with Suc.prems show ?thesis by simp
  next
    case False
    with Suc.prems have "i \<le> k" by simp
    moreover have "\<not> prefix substr (drop (Suc k) s)"
      using Suc.prems False by simp
    ultimately show ?thesis
      using Suc by simp
  qed
qed

lemma LastIndex_dot:
  assumes "CHR ''.'' \<notin> set d"
  shows "LastIndex (a @ ''.'' @ d) ''.'' = int (length a)"
proof -
  let ?s = "a @ ''.'' @ d"
  have p: "prefix ''.'' (drop (length a) ?s)"
    by simp
  have np: "\<not> prefix ''.'' (drop j ?s)" if "length a < j" for j
  proof -
    from that obtain m where j: "j = Suc (length a + m)"
      by (metis less_iff_Suc_add)
    have "drop j ?s = drop m d"
      by (simp add: j)
    moreover have "\<not> prefix ''.'' (drop m d)"
    proof
      assume "prefix ''.'' (drop m d)"
      then have "CHR ''.'' \<in> set (drop m d)"
        by (auto simp: prefix_def)
      then show False
        using assms by (meson in_set_dropD)
    qed
    ultimately show ?thesis by simp
  qed
  have "last_index_from (length ?s - length ''.'') ?s ''.'' = int (length a)"
    by (rule last_index_from_found) (use p np in auto)
  then show ?thesis
    by (simp add: LastIndex_def)
qed

lemma decimal_digits: "set (decimal n) \<subseteq> set ''0123456789''"
proof (induction n rule: decimal.induct)
  case (1 n)
  have d: "''0123456789'' ! k \<in> set ''0123456789''" if "k < 10" for k
    using that by (intro nth_mem) simp
  show ?case
  proof (cases "n < 10")
    case True
    then have "decimal n = [''0123456789'' ! n]"
      by (subst decimal.simps) simp
    then show ?thesis
      using d[OF True] by simp
  next
    case False
    then have "decimal n = decimal (n div 10) @ [''0123456789'' ! (n mod 10)]"
      by (subst decimal.simps) simp
    moreover have "n mod 10 < 10" by simp
    ultimately show ?thesis
      using 1[OF False] d[of "n mod 10"] by simp
  qed
qed

lemma decimal_no_dot: "CHR ''.'' \<notin> set (decimal n)"
  using decimal_digits[of n] by auto

lemma findSocketPath_eq:
  "findSocketPath env target slot'
     = socket_dir env @ ''/'' @ target @ ''.sock.'' @ decimal (unat slot')"
  by (simp add: findSocketPath_def socket_dir_def runtime_dir_variable_def)

lemma string_upto_LastIndex:
  assumes "CHR ''.'' \<notin> set d"
  shows "string_upto (a @ ''.'' @ d) (LastIndex (a @ ''.'' @ d) ''.'') = Done a"
proof -
  have L: "LastIndex (a @ ''.'' @ d) ''.'' = int (length a)"
    using assms by (rule LastIndex_dot)
  show ?thesis
    unfolding L by (simp add: string_upto_def)
qed

lemma slotless_name:
  "string_upto (findSocketPath env target slot') (LastIndex (findSocketPath env target slot') ''.'')
     = Done (socket_dir env @ ''/'' @ target @ ''.sock'')"
proof -
  let ?a = "socket_dir env @ ''/'' @ target @ ''.sock''"
  have eq: "findSocketPath env target slot' = ?a @ ''.'' @ decimal (unat slot')"
    by (simp add: findSocketPath_eq)
  show ?thesis
    unfolding eq by (rule string_upto_LastIndex[OF decimal_no_dot])
qed

text \<open>
  C6. The primary socket path is \<open><dir>/<target>.sock.<slot>\<close>, with the slot in
  decimal and \<open>dir\<close> the run-time directory variable of the platform when set and not
  empty, else \<open>/tmp\<close>. Connecting over the stream-socket transport dials the primary
  path once; only when that fails it dials once more, the path cut at its last \<open>.\<close>,
  which is the slot-less \<open><dir>/<target>.sock\<close>; it dials nothing else, and fails
  when both dials fail.
\<close>

theorem socket_path_and_fallback:
  "findSocketPath env target slot'
     = socket_dir env @ ''/'' @ target @ ''.sock.'' @ decimal (unat slot')
   \<and> connect w r \<lparr>network = ''unix'', address = findSocketPath env target slot'\<rparr>
     = (if dial_ok w r ''unix'' (findSocketPath env target slot') then
          ([Dial ''unix'' (findSocketPath env target slot')],
           Done (''unix'', findSocketPath env target slot'))
        else
          ([Dial ''unix'' (findSocketPath env target slot'),
            Dial ''unix'' (socket_dir env @ ''/'' @ target @ ''.sock'')],
           if dial_ok w r ''unix'' (socket_dir env @ ''/'' @ target @ ''.sock'')
           then Done (''unix'', socket_dir env @ ''/'' @ target @ ''.sock'')
           else Failed (''could not connect to PINE at '' @ [CHR 0x22]
                        @ findSocketPath env target slot' @ [CHR 0x22])))"
proof (rule conjI)
  show "findSocketPath env target slot'
     = socket_dir env @ ''/'' @ target @ ''.sock.'' @ decimal (unat slot')"
    by (rule findSocketPath_eq)
next
  show "connect w r \<lparr>network = ''unix'', address = findSocketPath env target slot'\<rparr>
     = (if dial_ok w r ''unix'' (findSocketPath env target slot') then
          ([Dial ''unix'' (findSocketPath env target slot')],
           Done (''unix'', findSocketPath env target slot'))
        else
          ([Dial ''unix'' (findSocketPath env target slot'),
            Dial ''unix'' (socket_dir env @ ''/'' @ target @ ''.sock'')],
           if dial_ok w r ''unix'' (socket_dir env @ ''/'' @ target @ ''.sock'')
           then Done (''unix'', socket_dir env @ ''/'' @ target @ ''.sock'')
           else Failed (''could not connect to PINE at '' @ [CHR 0x22]
                        @ findSocketPath env target slot' @ [CHR 0x22])))"
    by (simp add: connect_def slotless_name)
qed

text \<open>
  C10. With a non-zero slot override the resolver never looks the target up: for every
  non-empty target name, known or not, it succeeds on windows (TCP, port \<open>:<slot>\<close>)
  and on linux and darwin (the socket path of that target and slot), and on no platform
  does it fail with the unknown-target error, which therefore needs a slot override of
  zero.
\<close>

theorem nonzero_slot_skips_target_validation:
  "target \<noteq> [] \<Longrightarrow> slot' \<noteq> 0 \<Longrightarrow>
     (GOOS env = ''windows'' \<longrightarrow>
        NewPineConnection env target slot'
          = Inr \<lparr>network = ''tcp'', address = '':'' @ decimal (unat slot')\<rparr>)
     \<and> (GOOS env = ''linux'' \<or> GOOS env = ''darwin'' \<longrightarrow>
        NewPineConnection env target slot'
          = Inr \<lparr>network = ''unix'', address = findSocketPath env target slot'\<rparr>)
     \<and> (\<forall>msg. NewPineConnection env target slot' = Inl msg
            \<longrightarrow> \<not> prefix ''unknown target'' msg)"
  by (auto simp: NewPineConnection_def)

theorem nonzero_slot_skips_target_validation_witness:
  "''dolphin'' \<noteq> [] \<and> (7::uint16) \<noteq> 0
   \<and> NewPineConnection \<lparr>GOOS = ''linux'', Getenv = (\<lambda>_. []), keys_iter_addr = 0x4a3b20\<rparr>
         ''dolphin'' 7
       = Inr \<lparr>network = ''unix'', address = ''/tmp/dolphin.sock.7''\<rparr>
   \<and> NewPineConnection \<lparr>GOOS = ''windows'', Getenv = (\<lambda>_. []), keys_iter_addr = 0x4a3b20\<rparr>
         ''dolphin'' 7
       = Inr \<lparr>network = ''tcp'', address = '':7''\<rparr>"
proof -
  let ?l = "\<lparr>GOOS = ''linux'', Getenv = (\<lambda>_. []), keys_iter_addr = 0x4a3b20\<rparr>"
  let ?w = "\<lparr>GOOS = ''windows'', Getenv = (\<lambda>_. []), keys_iter_addr = 0x4a3b20\<rparr>"
  have h1: "''dolphin'' \<noteq> []" by simp
  have h2: "(7::uint16) \<noteq> 0" by simp
  have p: "findSocketPath ?l ''dolphin'' 7 = ''/tmp/dolphin.sock.7''"
    by (simp add: findSocketPath_def decimal.simps)
  have d: "decimal (unat (7::uint16)) = ''7''"
    by (simp add: decimal.simps)
  have "NewPineConnection ?l ''dolphin'' 7
      = Inr \<lparr>network = ''unix'', address = findSocketPath ?l ''dolphin'' 7\<rparr>"
    using nonzero_slot_skips_target_validation[OF h1 h2, of ?l] by simp
  moreover have "NewPineConnection ?w ''dolphin'' 7
      = Inr \<lparr>network = ''tcp'', address = '':'' @ decimal (unat (7::uint16))\<rparr>"
    using nonzero_slot_skips_target_validation[OF h1 h2, of ?w] by simp
  ultimately show ?thesis
    using h1 h2 p d by simp
qed

lemma hexadecimal_digits: "set (hexadecimal n) \<subseteq> set ''0123456789abcdef''"
proof (induction n rule: hexadecimal.induct)
  case (1 n)
  have d: "''0123456789abcdef'' ! k \<in> set ''0123456789abcdef''" if "k < 16" for k
    using that by (intro nth_mem) simp
  show ?case
  proof (cases "n < 16")
    case True
    then have "hexadecimal n = [''0123456789abcdef'' ! n]"
      by (subst hexadecimal.simps) simp
    then show ?thesis
      using d[OF True] by simp
  next
    case False
    then have "hexadecimal n = hexadecimal (n div 16) @ [''0123456789abcdef'' ! (n mod 16)]"
      by (subst hexadecimal.simps) simp
    moreover have "n mod 16 < 16" by simp
    ultimately show ?thesis
      using 1[OF False] d[of "n mod 16"] by simp
  qed
qed

lemma fmt_v_func_no_letter:
  assumes "c \<notin> set ''0123456789abcdef''" and "c \<notin> set ''<nil>0x''"
  shows "c \<notin> set (fmt_v (VFunc a))"
proof -
  have "c \<notin> set (hexadecimal a)"
    using assms(1) hexadecimal_digits[of a] by blast
  with assms(2) show ?thesis by simp
qed

lemma fmt_v_func_hd: "fmt_v (VFunc a) \<noteq> [] \<and> hd (fmt_v (VFunc a)) \<in> {CHR ''<'', CHR ''0''}"
  by simp

lemma not_sublist_append:
  assumes np: "\<not> sublist x p" and nr: "\<not> set x \<subseteq> set r"
    and r: "r \<noteq> []" and h: "hd r \<notin> set x"
  shows "\<not> sublist x (p @ r)"
proof
  assume "sublist x (p @ r)"
  then consider "sublist x p" | "sublist x r"
    | xs1 xs2 where "x = xs1 @ xs2" "suffix xs1 p" "prefix xs2 r"
    by (auto simp: sublist_append)
  then show False
  proof cases
    case 1
    with np show False by simp
  next
    case 2
    then have "set x \<subseteq> set r"
      by (auto simp: sublist_def)
    with nr show False by simp
  next
    case 3
    show False
    proof (cases "xs2 = []")
      case True
      with 3 have "suffix x p" by simp
      then have "sublist x p" by (rule suffix_imp_sublist)
      with np show False by simp
    next
      case False
      with 3(3) r have "hd xs2 = hd r"
        by (auto simp: prefix_def)
      moreover have "hd xs2 \<in> set x"
        using False 3(1) by simp
      ultimately show False using h by simp
    qed
  qed
qed

text \<open>
  C5 at the unrecognized target \<open>dolphin\<close> with slot override zero. The resolver
  fails with the unknown-target error, and the message ends with what \<open>%v\<close> prints
  for the value of \<open>maps.Keys(defaultSlotForTargetMap)\<close>. That value is an iterator
  function, not the keys, and is printed as its address: whatever the address, the
  message names neither \<open>pcsx2\<close> nor \<open>rpcs3\<close>.
\<close>

theorem unknown_target_message_lists_no_target:
  "\<exists>msg. NewPineConnection env ''dolphin'' 0 = Inl msg
     \<and> msg = (''unknown target '' @ [CHR 0x22] @ ''dolphin'' @ [CHR 0x22]
              @ '' when finding slot for target. Supported values are '')
             @ fmt_v (VFunc (keys_iter_addr env))
     \<and> \<not> sublist ''pcsx2'' msg \<and> \<not> sublist ''rpcs3'' msg"
proof -
  define p where "p = ''unknown target '' @ [CHR 0x22] @ ''dolphin'' @ [CHR 0x22]
             @ '' when finding slot for target. Supported values are ''"
  define r where "r = fmt_v (VFunc (keys_iter_addr env))"
  have m: "NewPineConnection env ''dolphin'' 0 = Inl (p @ r)"
    by (simp add: NewPineConnection_def defaultSlotForTargetMap_def
          defaultSlotForTargetMap_entries_def maps_Keys_def p_def r_def)
  have p1: "\<not> sublist ''pcsx2'' p"
    unfolding p_def by code_simp
  have p2: "\<not> sublist ''rpcs3'' p"
    unfolding p_def by code_simp
  have "CHR ''p'' \<notin> set r"
    unfolding r_def by (rule fmt_v_func_no_letter) simp_all
  then have r1: "\<not> set ''pcsx2'' \<subseteq> set r" and r2: "\<not> set ''rpcs3'' \<subseteq> set r"
    by auto
  have h0: "r \<noteq> []" and h: "hd r \<in> {CHR ''<'', CHR ''0''}"
    unfolding r_def using fmt_v_func_hd[of "keys_iter_addr env"] by blast+
  have h1: "hd r \<notin> set ''pcsx2''" and h2: "hd r \<notin> set ''rpcs3''"
    using h by auto
  have "\<not> sublist ''pcsx2'' (p @ r)"
    by (rule not_sublist_append[OF p1 r1 h0 h1])
  moreover have "\<not> sublist ''rpcs3'' (p @ r)"
    by (rule not_sublist_append[OF p2 r2 h0 h2])
  ultimately have "\<exists>msg. NewPineConnection env ''dolphin'' 0 = Inl msg \<and> msg = p @ r
      \<and> \<not> sublist ''pcsx2'' msg \<and> \<not> sublist ''rpcs3'' msg"
    using m by blast
  then show ?thesis
    unfolding p_def r_def .
qed

text \<open>The other parts of C5 hold: the empty target is refused, and a zero slot override
  takes the default slot of a known target.\<close>

lemma resolution_of_known_and_empty_targets:
  "NewPineConnection env [] slot'
     = Inl ''empty string provided for target name when creating PINE connection''"
  "NewPineConnection \<lparr>GOOS = ''linux'', Getenv = (\<lambda>_. []), keys_iter_addr = a\<rparr> ''pcsx2'' 0
     = Inr \<lparr>network = ''unix'', address = ''/tmp/pcsx2.sock.28011''\<rparr>"
  "NewPineConnection \<lparr>GOOS = ''windows'', Getenv = (\<lambda>_. []), keys_iter_addr = a\<rparr> ''rpcs3'' 0
     = Inr \<lparr>network = ''tcp'', address = '':28012''\<rparr>"
  by (simp_all add: NewPineConnection_def defaultSlotForTargetMap_def
        defaultSlotForTargetMap_entries_def findSocketPath_def decimal.simps)


section \<open>The session manager: results\<close>

lemma NewPineConnection_Inr:
  assumes "NewPineConnection env t s = Inr c"
  shows "network c \<noteq> ''unix'' \<or> (\<exists>s'. c = \<lparr>network = ''unix'', address = findSocketPath env t s'\<rparr>)"
  using assms
  by (auto simp: NewPineConnection_def split: if_splits option.splits)

lemma connect_no_panic:
  assumes "NewPineConnection env t s = Inr c"
  shows "snd (connect w r c) \<noteq> Panic"
proof -
  from NewPineConnection_Inr[OF assms]
  consider "network c \<noteq> ''unix''"
    | s' where "c = \<lparr>network = ''unix'', address = findSocketPath env t s'\<rparr>"
    by blast
  then show ?thesis
  proof cases
    case 1
    then show ?thesis by (simp add: connect_def)
  next
    case 2
    then show ?thesis by (simp add: connect_def slotless_name)
  qed
qed

lemma TestConnection_no_panic:
  assumes "NewPineConnection env t s = Inr c"
  shows "snd (TestConnection w r c) \<noteq> Panic"
proof (cases "connect w r c")
  case (Pair evs res)
  with connect_no_panic[OF assms, of w r] have "res \<noteq> Panic" by simp
  with Pair show ?thesis
    by (cases res) (auto simp: TestConnection_def split: option.splits)
qed

lemma TestConnection_no_sleep:
  "\<not> is_sleep e" if "e \<in> set (fst (TestConnection w r c))"
proof -
  have c: "\<not> is_sleep e'" if "e' \<in> set (fst (connect w r c))" for e'
    using that by (auto simp: connect_def split: if_splits outcome.splits)
  show ?thesis
  proof (cases "connect w r c")
    case (Pair evs res)
    with c that show ?thesis
      by (cases res) (auto simp: TestConnection_def split: option.splits)
  qed
qed

lemma probe_targets_find:
  "snd (probe_targets env w r es None)
     = Done (case find (probe_ok env w r) es of None \<Rightarrow> None | Some e \<Rightarrow> resolved env e)"
proof (induction es)
  case Nil
  show ?case by simp
next
  case (Cons e es)
  obtain t s where e: "e = (t, s)" by (cases e)
  show ?case
  proof (cases "NewPineConnection env t s")
    case (Inl err)
    then have "\<not> probe_ok env w r e"
      by (simp add: probe_ok_def e)
    with Cons e Inl show ?thesis
      by simp
  next
    case (Inr c)
    obtain evs res where tc: "TestConnection w r c = (evs, res)"
      by (cases "TestConnection w r c")
    have np: "res \<noteq> Panic"
      using TestConnection_no_panic[OF Inr, of w r] tc by simp
    show ?thesis
    proof (cases res)
      case Panic
      with np show ?thesis by simp
    next
      case (Failed x)
      obtain evs' res' where rest: "probe_targets env w r es None = (evs', res')"
        by (cases "probe_targets env w r es None")
      with Cons have res': "res' = Done (case find (probe_ok env w r) es of
                                    None \<Rightarrow> None | Some e \<Rightarrow> resolved env e)"
        by simp
      have "\<not> probe_ok env w r e"
        using Failed Inr tc by (simp add: probe_ok_def e)
      with Failed e Inr tc rest res' show ?thesis
        by simp
    next
      case (Done u)
      have "probe_ok env w r e"
        using Done Inr tc by (simp add: probe_ok_def e)
      moreover have "resolved env e = Some c"
        using Inr by (simp add: resolved_def e)
      ultimately show ?thesis
        using Done e Inr tc by simp
    qed
  qed
qed

lemma probe_targets_no_sleep:
  "\<forall>ev \<in> set (fst (probe_targets env w r es pc)). \<not> is_sleep ev"
proof (induction es arbitrary: pc)
  case Nil
  show ?case by simp
next
  case (Cons e es)
  obtain t s where e: "e = (t, s)" by (cases e)
  show ?case
  proof (cases "NewPineConnection env t s")
    case (Inl err)
    with Cons e show ?thesis by simp
  next
    case (Inr c)
    obtain evs res where tc: "TestConnection w r c = (evs, res)"
      by (cases "TestConnection w r c")
    have evs: "\<forall>x \<in> set evs. \<not> is_sleep x"
      using TestConnection_no_sleep[of _ w r c] tc by simp
    show ?thesis
    proof (cases res)
      case Panic
      with e Inr tc evs show ?thesis by simp
    next
      case (Failed x)
      obtain evs' res' where rest: "probe_targets env w r es None = (evs', res')"
        by (cases "probe_targets env w r es None")
      have "\<forall>y \<in> set evs'. \<not> is_sleep y"
        using Cons[of None] rest by simp
      with Failed e Inr tc evs rest show ?thesis
        by auto
    next
      case (Done u)
      with e Inr tc evs show ?thesis by simp
    qed
  qed
qed

lemma filter_no_sleep: "\<forall>ev \<in> set evs. \<not> is_sleep ev \<Longrightarrow> filter is_sleep evs = []"
  by (induction evs) auto

lemma find_first:
  "\<forall>x \<in> set pre. \<not> P x \<Longrightarrow> P e \<Longrightarrow> find P (pre @ e # post) = Some e"
  by (induction pre) auto

lemma probe_ok_resolved:
  "probe_ok env w r e \<Longrightarrow> \<exists>c. resolved env e = Some c \<and> NewPineConnection env (fst e) (snd e) = Inr c"
  by (auto simp: probe_ok_def resolved_def split: sum.splits)

lemma main_loop_round_none:
  assumes "find (probe_ok env w r) (range_order w r) = None"
  shows "snd (main_loop env w (Suc f) r None) = snd (main_loop env w f (Suc r) None)
    \<and> filter is_sleep (fst (main_loop env w (Suc f) r None))
        = Sleep_seconds 5 # filter is_sleep (fst (main_loop env w f (Suc r) None))"
proof -
  obtain evs res where p: "probe_targets env w r (range_order w r) None = (evs, res)"
    by (cases "probe_targets env w r (range_order w r) None")
  have res: "res = Done None"
    using probe_targets_find[of env w r "range_order w r"] p assms by simp
  have ns: "filter is_sleep evs = []"
    using probe_targets_no_sleep[of env w r "range_order w r" None] p
    by (intro filter_no_sleep) simp
  obtain evs' res' where m: "main_loop env w f (Suc r) None = (evs', res')"
    by (cases "main_loop env w f (Suc r) None")
  show ?thesis
    using p res ns m by simp
qed

lemma main_loop_round_some:
  assumes "find (probe_ok env w r) (range_order w r) = Some e"
  shows "\<exists>c. NewPineConnection env (fst e) (snd e) = Inr c
    \<and> snd (main_loop env w (Suc f) r None) = Done (Connected c)
    \<and> filter is_sleep (fst (main_loop env w (Suc f) r None)) = []"
proof -
  have "probe_ok env w r e"
    using assms by (auto simp: find_Some_iff)
  then obtain c where c: "resolved env e = Some c" "NewPineConnection env (fst e) (snd e) = Inr c"
    using probe_ok_resolved by blast
  obtain evs res where p: "probe_targets env w r (range_order w r) None = (evs, res)"
    by (cases "probe_targets env w r (range_order w r) None")
  have res: "res = Done (Some c)"
    using probe_targets_find[of env w r "range_order w r"] p assms c by simp
  have ns: "filter is_sleep evs = []"
    using probe_targets_no_sleep[of env w r "range_order w r" None] p
    by (intro filter_no_sleep) simp
  show ?thesis
    using p res ns c(2) by simp
qed

lemma main_loop_keeps_sleeping:
  assumes "\<forall>k<n. find (probe_ok env w (r + k)) (range_order w (r + k)) = None"
  shows "snd (main_loop env w n r None) = Done Disconnected
    \<and> filter is_sleep (fst (main_loop env w n r None)) = replicate n (Sleep_seconds 5)"
  using assms
proof (induction n arbitrary: r)
  case 0
  show ?case by simp
next
  case (Suc n)
  have r0: "find (probe_ok env w r) (range_order w r) = None"
    using Suc.prems by (metis add.right_neutral zero_less_Suc)
  have "\<forall>k<n. find (probe_ok env w (Suc r + k)) (range_order w (Suc r + k)) = None"
    using Suc.prems by (metis Suc_less_eq add_Suc_shift)
  then have ih: "snd (main_loop env w n (Suc r) None) = Done Disconnected
    \<and> filter is_sleep (fst (main_loop env w n (Suc r) None)) = replicate n (Sleep_seconds 5)"
    by (rule Suc.IH)
  show ?case
    using main_loop_round_none[OF r0, of n] ih by simp
qed

lemma main_loop_connects:
  assumes "\<forall>k<n. find (probe_ok env w (r + k)) (range_order w (r + k)) = None"
    and "find (probe_ok env w (r + n)) (range_order w (r + n)) = Some e"
  shows "\<exists>c. NewPineConnection env (fst e) (snd e) = Inr c
    \<and> snd (main_loop env w (Suc (n + m)) r None) = Done (Connected c)
    \<and> filter is_sleep (fst (main_loop env w (Suc (n + m)) r None))
        = replicate n (Sleep_seconds 5)"
  using assms
proof (induction n arbitrary: r)
  case 0
  then show ?case
    using main_loop_round_some[of env w r e m] by simp
next
  case (Suc n)
  have r0: "find (probe_ok env w r) (range_order w r) = None"
    using Suc.prems(1) by (metis add.right_neutral zero_less_Suc)
  have a: "\<forall>k<n. find (probe_ok env w (Suc r + k)) (range_order w (Suc r + k)) = None"
    using Suc.prems(1) by (metis Suc_less_eq add_Suc_shift)
  have b: "find (probe_ok env w (Suc r + n)) (range_order w (Suc r + n)) = Some e"
    using Suc.prems(2) by simp
  obtain c where c: "NewPineConnection env (fst e) (snd e) = Inr c"
      "snd (main_loop env w (Suc (n + m)) (Suc r) None) = Done (Connected c)"
      "filter is_sleep (fst (main_loop env w (Suc (n + m)) (Suc r) None))
        = replicate n (Sleep_seconds 5)"
    using Suc.IH[OF a b] by blast
  show ?case
    using main_loop_round_none[OF r0, of "Suc (n + m)"] c by simp
qed

text \<open>
  C8, as the code has it. The probe loop starts Disconnected (\<open>pc\<close> is nil) and in
  each round ranges over the map of known targets, in the order the \<open>range\<close> statement
  yields the entries in that round: the language leaves that order unspecified, and it
  may differ from round to round. It probes each target in turn, on its default slot,
  by resolving it and opening and closing a connection. As long as no known target's
  probe succeeds, the loop stays Disconnected and sleeps five seconds after each round,
  for any number of rounds; in the first round in which some probe succeeds, the first
  target of that round's order whose probe succeeds becomes the active connection and
  the API is served, after exactly one five-second sleep per failed round.
\<close>

theorem probe_loop:
  assumes "\<forall>k. iteration_order (range_order w k)"
  shows "((\<forall>k<n. \<forall>x \<in> set defaultSlotForTargetMap_entries. \<not> probe_ok env w (r + k) x)
      \<longrightarrow> snd (main_loop env w n r None) = Done Disconnected
          \<and> filter is_sleep (fst (main_loop env w n r None)) = replicate n (Sleep_seconds 5))
    \<and> ((\<forall>k<n. \<forall>x \<in> set defaultSlotForTargetMap_entries. \<not> probe_ok env w (r + k) x)
        \<and> range_order w (r + n) = pre @ e # post
        \<and> (\<forall>x \<in> set pre. \<not> probe_ok env w (r + n) x) \<and> probe_ok env w (r + n) e
      \<longrightarrow> (\<exists>c. NewPineConnection env (fst e) (snd e) = Inr c
            \<and> snd (main_loop env w (Suc (n + m)) r None) = Done (Connected c)
            \<and> filter is_sleep (fst (main_loop env w (Suc (n + m)) r None))
                = replicate n (Sleep_seconds 5)))"
proof (rule conjI; rule impI)
  assume "\<forall>k<n. \<forall>x \<in> set defaultSlotForTargetMap_entries. \<not> probe_ok env w (r + k) x"
  then have "\<forall>k<n. find (probe_ok env w (r + k)) (range_order w (r + k)) = None"
    using assms by (auto simp: find_None_iff iteration_order_def)
  then show "snd (main_loop env w n r None) = Done Disconnected
          \<and> filter is_sleep (fst (main_loop env w n r None)) = replicate n (Sleep_seconds 5)"
    by (rule main_loop_keeps_sleeping)
next
  assume h: "(\<forall>k<n. \<forall>x \<in> set defaultSlotForTargetMap_entries. \<not> probe_ok env w (r + k) x)
        \<and> range_order w (r + n) = pre @ e # post
        \<and> (\<forall>x \<in> set pre. \<not> probe_ok env w (r + n) x) \<and> probe_ok env w (r + n) e"
  then have a: "\<forall>k<n. find (probe_ok env w (r + k)) (range_order w (r + k)) = None"
    using assms by (auto simp: find_None_iff iteration_order_def)
  have b: "find (probe_ok env w (r + n)) (range_order w (r + n)) = Some e"
    using h find_first[of pre "probe_ok env w (r + n)" e post] by simp
  show "\<exists>c. NewPineConnection env (fst e) (snd e) = Inr c
            \<and> snd (main_loop env w (Suc (n + m)) r None) = Done (Connected c)
            \<and> filter is_sleep (fst (main_loop env w (Suc (n + m)) r None))
                = replicate n (Sleep_seconds 5)"
    using a b by (rule main_loop_connects)
qed

theorem probe_loop_witness:
  "(\<forall>k. iteration_order
          (range_order \<lparr>dial_ok = (\<lambda>r n a. 1 \<le> r), close_error = (\<lambda>r n a. None),
                        range_order = (\<lambda>r. [(''rpcs3'', 28012), (''pcsx2'', 28011)])\<rparr> k))
   \<and> snd (main_loop \<lparr>GOOS = ''linux'', Getenv = (\<lambda>_. []), keys_iter_addr = 0x4a3b20\<rparr>
            \<lparr>dial_ok = (\<lambda>r n a. 1 \<le> r), close_error = (\<lambda>r n a. None),
              range_order = (\<lambda>r. [(''rpcs3'', 28012), (''pcsx2'', 28011)])\<rparr> 1 0 None)
       = Done Disconnected
   \<and> snd (main_loop \<lparr>GOOS = ''linux'', Getenv = (\<lambda>_. []), keys_iter_addr = 0x4a3b20\<rparr>
            \<lparr>dial_ok = (\<lambda>r n a. 1 \<le> r), close_error = (\<lambda>r n a. None),
              range_order = (\<lambda>r. [(''rpcs3'', 28012), (''pcsx2'', 28011)])\<rparr> 2 0 None)
       = Done (Connected \<lparr>network = ''unix'', address = ''/tmp/rpcs3.sock.28012''\<rparr>)
   \<and> filter is_sleep
         (fst (main_loop \<lparr>GOOS = ''linux'', Getenv = (\<lambda>_. []), keys_iter_addr = 0x4a3b20\<rparr>
            \<lparr>dial_ok = (\<lambda>r n a. 1 \<le> r), close_error = (\<lambda>r n a. None),
              range_order = (\<lambda>r. [(''rpcs3'', 28012), (''pcsx2'', 28011)])\<rparr> 2 0 None))
       = [Sleep_seconds 5]"
proof -
  define E where "E = \<lparr>GOOS = ''linux'', Getenv = (\<lambda>_. []), keys_iter_addr = 0x4a3b20\<rparr>"
  define W where "W = \<lparr>dial_ok = (\<lambda>r n a. 1 \<le> (r::nat)), close_error = (\<lambda>r n a. None),
              range_order = (\<lambda>r. [(''rpcs3'', 28012), (''pcsx2'', 28011)])\<rparr>"
  have h0: "\<forall>k. iteration_order (range_order W k)"
    by (auto simp: W_def iteration_order_def defaultSlotForTargetMap_entries_def)
  have r: "NewPineConnection E ''rpcs3'' 28012
      = Inr \<lparr>network = ''unix'', address = findSocketPath E ''rpcs3'' 28012\<rparr>"
    by (simp add: NewPineConnection_def E_def)
  have p: "NewPineConnection E ''pcsx2'' 28011
      = Inr \<lparr>network = ''unix'', address = findSocketPath E ''pcsx2'' 28011\<rparr>"
    by (simp add: NewPineConnection_def E_def)
  have a: "findSocketPath E ''rpcs3'' 28012 = ''/tmp/rpcs3.sock.28012''"
    by (simp add: findSocketPath_def E_def decimal.simps)
  have h1: "\<forall>k<1. \<forall>x \<in> set defaultSlotForTargetMap_entries. \<not> probe_ok E W (0 + k) x"
    by (simp add: defaultSlotForTargetMap_entries_def probe_ok_def r p TestConnection_def
          connect_def slotless_name W_def)
  have h2: "range_order W (0 + 1) = [] @ (''rpcs3'', 28012) # [(''pcsx2'', 28011)]"
    by (simp add: W_def)
  have h3: "(\<forall>x \<in> set []. \<not> probe_ok E W (0 + 1) x) \<and> probe_ok E W (0 + 1) (''rpcs3'', 28012)"
    by (simp add: probe_ok_def r TestConnection_def connect_def W_def)
  note T = probe_loop[OF h0, of 1 E 0 "[]" "(''rpcs3'', 28012)" "[(''pcsx2'', 28011)]" 0]
  from T h1 have c1: "snd (main_loop E W 1 0 None) = Done Disconnected"
    by blast
  from T h1 h2 h3 obtain c where c: "NewPineConnection E (fst (''rpcs3'', 28012::uint16))
        (snd (''rpcs3'', 28012::uint16)) = Inr c"
      "snd (main_loop E W (Suc (1 + 0)) 0 None) = Done (Connected c)"
      "filter is_sleep (fst (main_loop E W (Suc (1 + 0)) 0 None)) = replicate 1 (Sleep_seconds 5)"
    by blast
  from c(1) r a have "c = \<lparr>network = ''unix'', address = ''/tmp/rpcs3.sock.28012''\<rparr>"
    by simp
  with c(2,3) have c2: "snd (main_loop E W 2 0 None)
        = Done (Connected \<lparr>network = ''unix'', address = ''/tmp/rpcs3.sock.28012''\<rparr>)
      \<and> filter is_sleep (fst (main_loop E W 2 0 None)) = [Sleep_seconds 5]"
    by (simp add: numeral_2_eq_2)
  from h0 c1 c2 show ?thesis
    unfolding E_def W_def by blast
qed

text \<open>
  C8 as stated fails: the order is not fixed. With both emulators reachable, the two
  orders in which a \<open>range\<close> over the two-entry map may yield its entries make
  different targets the active connection.
\<close>

theorem probe_order_counterexample:
  "iteration_order [(''pcsx2'', 28011), (''rpcs3'', 28012)]
   \<and> iteration_order [(''rpcs3'', 28012), (''pcsx2'', 28011)]
   \<and> snd (probe_targets \<lparr>GOOS = ''linux'', Getenv = (\<lambda>_. []), keys_iter_addr = 0x4a3b20\<rparr>
            \<lparr>dial_ok = (\<lambda>r n a. True), close_error = (\<lambda>r n a. None),
              range_order = (\<lambda>r. [])\<rparr> 0
            [(''pcsx2'', 28011), (''rpcs3'', 28012)] None)
       = Done (Some \<lparr>network = ''unix'', address = ''/tmp/pcsx2.sock.28011''\<rparr>)
   \<and> snd (probe_targets \<lparr>GOOS = ''linux'', Getenv = (\<lambda>_. []), keys_iter_addr = 0x4a3b20\<rparr>
            \<lparr>dial_ok = (\<lambda>r n a. True), close_error = (\<lambda>r n a. None),
              range_order = (\<lambda>r. [])\<rparr> 0
            [(''rpcs3'', 28012), (''pcsx2'', 28011)] None)
       = Done (Some \<lparr>network = ''unix'', address = ''/tmp/rpcs3.sock.28012''\<rparr>)"
proof -
  have "iteration_order [(''pcsx2'', 28011), (''rpcs3'', 28012)]
      \<and> iteration_order [(''rpcs3'', 28012), (''pcsx2'', 28011)]"
    by (auto simp: iteration_order_def defaultSlotForTargetMap_entries_def)
  moreover have "snd (probe_targets \<lparr>GOOS = ''linux'', Getenv = (\<lambda>_. []), keys_iter_addr = 0x4a3b20\<rparr>
            \<lparr>dial_ok = (\<lambda>r n a. True), close_error = (\<lambda>r n a. None),
              range_order = (\<lambda>r. [])\<rparr> 0
            [(''pcsx2'', 28011), (''rpcs3'', 28012)] None)
       = Done (Some \<lparr>network = ''unix'', address = ''/tmp/pcsx2.sock.28011''\<rparr>)"
    by (simp add: NewPineConnection_def TestConnection_def connect_def findSocketPath_def
          decimal.simps)
  moreover have "snd (probe_targets \<lparr>GOOS = ''linux'', Getenv = (\<lambda>_. []), keys_iter_addr = 0x4a3b20\<rparr>
            \<lparr>dial_ok = (\<lambda>r n a. True), close_error = (\<lambda>r n a. None),
              range_order = (\<lambda>r. [])\<rparr> 0
            [(''rpcs3'', 28012), (''pcsx2'', 28011)] None)
       = Done (Some \<lparr>network = ''unix'', address = ''/tmp/rpcs3.sock.28012''\<rparr>)"
    by (simp add: NewPineConnection_def TestConnection_def connect_def findSocketPath_def
          decimal.simps)
  ultimately show ?thesis by blast
qed


end
